theory Spec2Isabelle
  imports Main
begin

section \<open>Data model\<close>

text \<open>
  The values of hast attributes, which the pipeline scans, slices and joins: a string, a
  boolean, a number, or an array of strings and numbers (the tokens of a list-valued
  attribute such as the class list). The parser sets no attribute to \<open>null\<close> or
  \<open>undefined\<close>. Nothing in the code computes with a number: a number is known here by
  its text, the string that \<open>String\<close> gives for it. Of the characters of a string only
  the two braces, the newline, the digits and the capitals A to Z are ever told apart.
\<close>

datatype jsnumber = Number string

datatype item = IStr string | INum jsnumber

datatype jsval = VStr string | VArr "item list" | VBool bool | VNum jsnumber

text \<open>
  The document tree (hast) after the raw-HTML pass: \<open>root\<close>, \<open>element\<close>, \<open>text\<close>,
  \<open>comment\<close> and \<open>doctype\<close> nodes, and \<open>view\<close> nodes, which only the classifier makes.
  An element carries \<open>tagName\<close>, \<open>properties\<close> (an object, see below) and
  \<open>children\<close>; text and comment nodes carry \<open>value\<close> and have no \<open>children\<close>.
\<close>

datatype node =
    Root "node list"
  | Element string "(string \<times> jsval) list" "node list"
  | Text string
  | Comment string
  | Doctype
  | View string "(string \<times> jsval) list" "node list"

text \<open>
  Import specifiers as acorn builds them. The imported name of an \<open>ImportSpecifier\<close> is
  an identifier (with a \<open>name\<close>) or a string literal (without one).
\<close>

datatype exportName = IdentifierName string | StringLiteralName string

datatype specifier =
    ImportSpecifier exportName string
  | ImportDefaultSpecifier string
  | ImportNamespaceSpecifier string

text \<open>
  ESTree nodes of the output module. \<open>Parsed x\<close> is a node built by acorn that the pipeline
  never looks into; \<open>Null\<close> is JavaScript's \<open>null\<close>, which \<open>toDraw\<close> returns for a node
  without a handler and which then stands as an element of a children array.
\<close>

datatype 'x estree =
    Parsed 'x
  | ImportDeclaration "specifier list" string
  | Literal jsval
  | Identifier string
  | ArrayExpression "'x estree list"
  | MemberExpression "'x estree" "'x estree"
  | CallExpression "'x estree" "'x estree list"
  | ObjectExpression "(string \<times> 'x estree) list"
  | NewExpression "'x estree" "'x estree list"
  | ReturnStatement "'x estree"
  | FunctionExpression "string list" "'x estree list" string
  | ExportDefaultDeclaration "'x estree"
  | Null

text \<open>What a lowering returns: one node, or a JavaScript array of nodes.\<close>

datatype 'x lowered = One "'x estree" | Many "'x estree list"

text \<open>
  The two exceptions of a compilation: the \<open>Error\<close> thrown by the element handler for a
  \<open>script\<close> element, and acorn's \<open>SyntaxError\<close>.
\<close>

datatype error = NestedScript | SyntaxError

section \<open>Expression splitter\<close>

text \<open>
  The loop of \<open>findExpression\<close>, over the items \<open>str[pos]\<close> still to read. For a string
  the items are its characters, for an array its elements; \<open>isOpen\<close> and \<open>isClose\<close> are
  the tests \<open>str[pos] === '{'\<close> and \<open>str[pos] === '}'\<close>. \<open>openBraces\<close> may go negative.
\<close>

fun findLoop ::
  "('a \<Rightarrow> bool) \<Rightarrow> ('a \<Rightarrow> bool) \<Rightarrow> 'a list \<Rightarrow> nat \<Rightarrow> int \<Rightarrow> nat \<Rightarrow> (nat \<times> nat) option" where
  "findLoop isOpen isClose [] pos openBraces start = None"
| "findLoop isOpen isClose (c # rest) pos openBraces start =
     (let start1 = (if isOpen c \<and> openBraces = 0 then pos else start);
          open1 = (if isOpen c then openBraces + 1 else openBraces);
          open2 = (if isClose c then open1 - 1 else open1)
      in if isClose c \<and> open2 = 0 then Some (start1, pos)
         else findLoop isOpen isClose rest (Suc pos) open2 start1)"

definition findChars :: "string \<Rightarrow> (nat \<times> nat) option" where
  "findChars s = findLoop (\<lambda>c. c = CHR ''{'') (\<lambda>c. c = CHR ''}'') s 0 0 0"

definition findItems :: "item list \<Rightarrow> (nat \<times> nat) option" where
  "findItems xs = findLoop (\<lambda>x. x = IStr ''{'') (\<lambda>x. x = IStr ''}'') xs 0 0 0"

text \<open>
  A boolean or a number has no \<open>length\<close>: the test \<open>pos < str.length\<close> fails at once
  and \<open>findExpression\<close> returns \<open>null\<close>.
\<close>

fun findExpression :: "jsval \<Rightarrow> (nat \<times> nat) option" where
  "findExpression (VStr s) = findChars s"
| "findExpression (VArr xs) = findItems xs"
| "findExpression (VBool b) = None"
| "findExpression (VNum n) = None"

text \<open>
  \<open>value.length\<close>, \<open>value.slice(a, b)\<close> and \<open>value.slice(a)\<close> for \<open>a \<le> b\<close> in range.
  \<open>handleExpressions\<close> asks them of a value only after a span was found in it, so never
  of a boolean or a number; the equations for those are never used.
\<close>

fun jslength :: "jsval \<Rightarrow> nat" where
  "jslength (VStr s) = length s"
| "jslength (VArr xs) = length xs"
| "jslength v = 0"

fun slice :: "jsval \<Rightarrow> nat \<Rightarrow> nat \<Rightarrow> jsval" where
  "slice (VStr s) a b = VStr (take (b - a) (drop a s))"
| "slice (VArr xs) a b = VArr (take (b - a) (drop a xs))"
| "slice v a b = v"

fun sliceFrom :: "jsval \<Rightarrow> nat \<Rightarrow> jsval" where
  "sliceFrom (VStr s) a = VStr (drop a s)"
| "sliceFrom (VArr xs) a = VArr (drop a xs)"
| "sliceFrom v a = v"

text \<open>
  \<open>handleExpressions\<close>. \<open>parseExpressionAt\<close> is acorn's: it is a parameter, \<open>None\<close> when
  it throws its \<open>SyntaxError\<close>. \<open>e.str(v)\<close> is \<open>Literal v\<close>.
\<close>

definition handleExpressions :: "(jsval \<Rightarrow> 'x option) \<Rightarrow> jsval \<Rightarrow> error + 'x lowered" where
  "handleExpressions parseExpressionAt v =
     (case findExpression v of
        Some (start, end) \<Rightarrow>
          (case parseExpressionAt (slice v (start + 1) end) of
             None \<Rightarrow> Inl SyntaxError
           | Some expr \<Rightarrow>
               Inr (Many ((if start > 0 then [Literal (slice v 0 start)] else [])
                          @ [Parsed expr]
                          @ (if end + 1 < jslength v then [Literal (sliceFrom v (end + 1))] else [])))
          )
      | None \<Rightarrow> Inr (One (Literal v)))"

section \<open>Property lowering\<close>

text \<open>
  \<open>value.join(' ')\<close>: the texts of the items (a string is its own text, a number has
  the text \<open>String\<close> gives), with the separator between any two that follow one another.
\<close>

fun itemText :: "item \<Rightarrow> string" where
  "itemText (IStr s) = s"
| "itemText (INum (Number t)) = t"

fun joinWith :: "string \<Rightarrow> string list \<Rightarrow> string" where
  "joinWith sep [] = []"
| "joinWith sep [x] = x"
| "joinWith sep (x # y # ys) = x @ sep @ joinWith sep (y # ys)"

text \<open>
  A JavaScript object is given by its properties in the order they were created, with
  distinct keys. \<open>Object.entries\<close> (and every other listing of the object, that of
  \<open>e.obj\<close> included) gives the keys that are array indices first, in ascending numeric
  order, then the other keys in the order of creation. An array index is the decimal
  text, without a leading zero, of a number below \<open>2^32 - 1\<close>.
\<close>

definition isDigit :: "char \<Rightarrow> bool" where
  "isDigit c = (48 \<le> (of_char c :: int) \<and> (of_char c :: int) \<le> 57)"

definition digitsValue :: "string \<Rightarrow> int" where
  "digitsValue k = foldl (\<lambda>n c. 10 * n + ((of_char c :: int) - 48)) 0 k"

definition isArrayIndex :: "string \<Rightarrow> bool" where
  "isArrayIndex k =
     (k \<noteq> [] \<and> list_all isDigit k \<and> (k = ''0'' \<or> hd k \<noteq> CHR ''0'') \<and>
      digitsValue k < 4294967295)"

definition objectEntries :: "(string \<times> 'v) list \<Rightarrow> (string \<times> 'v) list" where
  "objectEntries props =
     sort_key (\<lambda>(k, v). digitsValue k) (filter (\<lambda>(k, v). isArrayIndex k) props)
     @ filter (\<lambda>(k, v). \<not> isArrayIndex k) props"

text \<open>
  \<open>properties[key] = v\<close> on an object given by its listing: the value of a key that
  is there is replaced in place, a new key takes its place in the listing.
\<close>

definition setProperty :: "string \<Rightarrow> 'v \<Rightarrow> (string \<times> 'v) list \<Rightarrow> (string \<times> 'v) list" where
  "setProperty k v obj =
     (if k \<in> fst ` set obj
      then map (\<lambda>(k', v'). if k' = k then (k', v) else (k', v')) obj
      else objectEntries (obj @ [(k, v)]))"

text \<open>
  The body of the reducer of \<open>parseProperties\<close>, for one entry: the class list is joined
  when it is an array, the value is split, and an array of parts becomes the call
  \<open>[parts].join('')\<close>.
\<close>

definition joinClassName :: "string \<Rightarrow> jsval \<Rightarrow> jsval" where
  "joinClassName key v =
     (case v of
        VArr tokens \<Rightarrow>
          if key = ''className'' then VStr (joinWith '' '' (map itemText tokens)) else v
      | _ \<Rightarrow> v)"

definition joinCall :: "'x estree list \<Rightarrow> 'x estree" where
  "joinCall parts =
     CallExpression (MemberExpression (ArrayExpression parts) (Identifier ''join''))
       [Literal (VStr [])]"

definition lowerProperty :: "(jsval \<Rightarrow> 'x option) \<Rightarrow> string \<Rightarrow> jsval \<Rightarrow> error + 'x estree" where
  "lowerProperty parseExpressionAt key v =
     (case handleExpressions parseExpressionAt (joinClassName key v) of
        Inl err \<Rightarrow> Inl err
      | Inr (Many parts) \<Rightarrow> Inr (joinCall parts)
      | Inr (One lit) \<Rightarrow> Inr lit)"

fun reduceProperties ::
  "(jsval \<Rightarrow> 'x option) \<Rightarrow> (string \<times> 'x estree) list \<Rightarrow> (string \<times> jsval) list
     \<Rightarrow> error + (string \<times> 'x estree) list" where
  "reduceProperties parseExpressionAt properties [] = Inr properties"
| "reduceProperties parseExpressionAt properties ((key, v) # entries) =
     (case lowerProperty parseExpressionAt key v of
        Inl err \<Rightarrow> Inl err
      | Inr lowered \<Rightarrow>
          reduceProperties parseExpressionAt (setProperty key lowered properties) entries)"

text \<open>
  \<open>parseProperties\<close>: the reducer over \<open>Object.entries(node.properties)\<close>, from the
  empty object. The result is the listing of the object built.
\<close>

definition parseProperties ::
  "(jsval \<Rightarrow> 'x option) \<Rightarrow> (string \<times> jsval) list \<Rightarrow> error + (string \<times> 'x estree) list" where
  "parseProperties parseExpressionAt props =
     reduceProperties parseExpressionAt [] (objectEntries props)"

section \<open>Draw synthesizer\<close>

text \<open>The filter of \<open>toDraw\<close>: a child is kept unless it is the text node \<open>"\n"\<close>.\<close>

fun keepChild :: "node \<Rightarrow> bool" where
  "keepChild (Text v) = (v \<noteq> [CHR 0x0A])"
| "keepChild _ = True"

text \<open>
  \<open>children.flatMap(f)\<close> for an \<open>f\<close> that may throw: the children in order, the first
  exception ends it; an array result is spliced in, any other result is one element.
\<close>

fun spliced :: "'x lowered \<Rightarrow> 'x estree list" where
  "spliced (One n) = [n]"
| "spliced (Many ns) = ns"

fun flatMapE :: "('a \<Rightarrow> error + 'x lowered) \<Rightarrow> 'a list \<Rightarrow> error + 'x estree list" where
  "flatMapE f [] = Inr []"
| "flatMapE f (c # cs) =
     (case f c of
        Inl err \<Rightarrow> Inl err
      | Inr r \<Rightarrow> (case flatMapE f cs of Inl err \<Rightarrow> Inl err | Inr rs \<Rightarrow> Inr (spliced r @ rs)))"

lemma flatMapE_cong [fundef_cong]:
  "xs = ys \<Longrightarrow> (\<And>x. x \<in> set ys \<Longrightarrow> f x = g x) \<Longrightarrow> flatMapE f xs = flatMapE g ys"
  by (induction ys arbitrary: xs) (auto split: sum.splits)

text \<open>
  \<open>e.obj(properties)\<close> of estree-builder. The builders take a source location as a last
  argument and know it by its keys \<open>start\<close> and \<open>end\<close>: an object of properties that has
  both keys is taken for a location, and the object literal built has no properties.
\<close>

definition eObj :: "(string \<times> 'x estree) list \<Rightarrow> 'x estree" where
  "eObj properties =
     (if ''start'' \<in> fst ` set properties \<and> ''end'' \<in> fst ` set properties
      then ObjectExpression []
      else ObjectExpression properties)"

text \<open>The handlers \<open>root\<close>, \<open>element\<close> and \<open>view\<close>, given the lowered children.\<close>

definition handleRoot :: "'x estree list \<Rightarrow> 'x estree" where
  "handleRoot children =
     ExportDefaultDeclaration
       (FunctionExpression [''ctx''] [ReturnStatement (ArrayExpression children)] ''draw'')"

definition handleElement ::
  "(jsval \<Rightarrow> 'x option) \<Rightarrow> string \<Rightarrow> (string \<times> jsval) list \<Rightarrow> 'x estree list \<Rightarrow> error + 'x estree" where
  "handleElement parseExpressionAt tagName props children =
     (if tagName = ''script'' then Inl NestedScript
      else case parseProperties parseExpressionAt props of
             Inl err \<Rightarrow> Inl err
           | Inr properties \<Rightarrow>
               Inr (CallExpression (Identifier ''el'')
                      [Literal (VStr tagName), eObj properties, ArrayExpression children]))"

definition handleView ::
  "(jsval \<Rightarrow> 'x option) \<Rightarrow> string \<Rightarrow> (string \<times> jsval) list \<Rightarrow> error + 'x estree" where
  "handleView parseExpressionAt tagName props =
     (case parseProperties parseExpressionAt props of
        Inl err \<Rightarrow> Inl err
      | Inr properties \<Rightarrow> Inr (NewExpression (Identifier tagName) [eObj properties]))"

text \<open>
  \<open>toDraw\<close>: a node with a handler and children has its kept children lowered first, then
  its handler called; the text handler is \<open>handleExpressions\<close> on the value; a node
  without a handler gives \<open>null\<close>.
\<close>

fun toDraw :: "(jsval \<Rightarrow> 'x option) \<Rightarrow> node \<Rightarrow> error + 'x lowered" where
  "toDraw parseExpressionAt (Root cs) =
     (case flatMapE (toDraw parseExpressionAt) (filter keepChild cs) of
        Inl err \<Rightarrow> Inl err
      | Inr children \<Rightarrow> Inr (One (handleRoot children)))"
| "toDraw parseExpressionAt (Element tagName props cs) =
     (case flatMapE (toDraw parseExpressionAt) (filter keepChild cs) of
        Inl err \<Rightarrow> Inl err
      | Inr children \<Rightarrow>
          (case handleElement parseExpressionAt tagName props children of
             Inl err \<Rightarrow> Inl err
           | Inr n \<Rightarrow> Inr (One n)))"
| "toDraw parseExpressionAt (Text v) = handleExpressions parseExpressionAt (VStr v)"
| "toDraw parseExpressionAt (View tagName props cs) =
     (case flatMapE (toDraw parseExpressionAt) (filter keepChild cs) of
        Inl err \<Rightarrow> Inl err
      | Inr children \<Rightarrow>
          (case handleView parseExpressionAt tagName props of
             Inl err \<Rightarrow> Inl err
           | Inr n \<Rightarrow> Inr (One n)))"
| "toDraw parseExpressionAt (Comment v) = Inr (One Null)"
| "toDraw parseExpressionAt Doctype = Inr (One Null)"

section \<open>The \<open>load\<close> pipeline\<close>

subsection \<open>Script extraction\<close>

text \<open>\<open>node.tagName\<close> and \<open>node.value\<close>, \<open>None\<close> where the property is \<open>undefined\<close>.\<close>

fun tagNameOf :: "node \<Rightarrow> string option" where
  "tagNameOf (Element tagName props cs) = Some tagName"
| "tagNameOf (View tagName props cs) = Some tagName"
| "tagNameOf _ = None"

fun valueOf :: "node \<Rightarrow> string option" where
  "valueOf (Text v) = Some v"
| "valueOf (Comment v) = Some v"
| "valueOf _ = None"

fun propertiesOf :: "node \<Rightarrow> (string \<times> jsval) list" where
  "propertiesOf (Element tagName props cs) = props"
| "propertiesOf (View tagName props cs) = props"
| "propertiesOf _ = []"

fun childrenOf :: "node \<Rightarrow> node list" where
  "childrenOf (Root cs) = cs"
| "childrenOf (Element tagName props cs) = cs"
| "childrenOf (View tagName props cs) = cs"
| "childrenOf _ = []"

text \<open>
  \<open>element.children.forEach(script => parse(script.value, {sourceType: type, program:
  module}))\<close>. \<open>parse\<close> is acorn's and a parameter: from the text (\<open>None\<close> for
  \<open>undefined\<close>) and the source type it gives the statements it appends to the module's
  body, or \<open>None\<close> when it throws.
\<close>

fun parseScripts ::
  "(string option \<Rightarrow> jsval \<Rightarrow> 'x estree list option) \<Rightarrow> jsval \<Rightarrow> node list \<Rightarrow> 'x estree list
     \<Rightarrow> error + 'x estree list" where
  "parseScripts parse sourceType [] body = Inr body"
| "parseScripts parse sourceType (script # scripts) body =
     (case parse (valueOf script) sourceType of
        None \<Rightarrow> Inl SyntaxError
      | Some stmts \<Rightarrow> parseScripts parse sourceType scripts (body @ stmts))"

text \<open>\<open>const { type = 'script' } = element.properties\<close>.\<close>

definition scriptType :: "(string \<times> jsval) list \<Rightarrow> jsval" where
  "scriptType props = (case map_of props ''type'' of None \<Rightarrow> VStr ''script'' | Some t \<Rightarrow> t)"

text \<open>
  The filter over the root's children: the children that stay, and the module body with
  the statements of every \<open>script\<close> child appended.
\<close>

fun extractScripts ::
  "(string option \<Rightarrow> jsval \<Rightarrow> 'x estree list option) \<Rightarrow> node list \<Rightarrow> 'x estree list
     \<Rightarrow> error + (node list \<times> 'x estree list)" where
  "extractScripts parse [] body = Inr ([], body)"
| "extractScripts parse (element # elements) body =
     (if tagNameOf element = Some ''script'' then
        (case parseScripts parse (scriptType (propertiesOf element)) (childrenOf element) body of
           Inl err \<Rightarrow> Inl err
         | Inr body' \<Rightarrow> extractScripts parse elements body')
      else
        (case extractScripts parse elements body of
           Inl err \<Rightarrow> Inl err
         | Inr (kept, body') \<Rightarrow> Inr (element # kept, body')))"

subsection \<open>The import of \<open>el\<close>\<close>

text \<open>\<open>e('named-import', e.id('el'))\<close>.\<close>

definition elSpecifier :: specifier where
  "elSpecifier = ImportSpecifier (IdentifierName ''el'') ''el''"

text \<open>\<open>s.type === 'ImportSpecifier' && s.imported.name === 'el'\<close>.\<close>

fun isElSpecifier :: "specifier \<Rightarrow> bool" where
  "isElSpecifier (ImportSpecifier (IdentifierName n) l) = (n = ''el'')"
| "isElSpecifier _ = False"

text \<open>
  \<open>module.body.find(...)\<close>: it stops at the first import declaration whose source is
  \<open>'overture/dom'\<close>, after pushing the specifier of \<open>el\<close> there unless one is found. The
  result is the body so changed, or \<open>None\<close> when \<open>find\<close> found nothing.
\<close>

fun findOvertureDomImport :: "'x estree list \<Rightarrow> 'x estree list option" where
  "findOvertureDomImport [] = None"
| "findOvertureDomImport (ImportDeclaration specifiers source # rest) =
     (if source = ''overture/dom'' then
        Some (ImportDeclaration
                (if list_ex isElSpecifier specifiers then specifiers
                 else specifiers @ [elSpecifier]) source # rest)
      else map_option ((#) (ImportDeclaration specifiers source)) (findOvertureDomImport rest))"
| "findOvertureDomImport (n # rest) = map_option ((#) n) (findOvertureDomImport rest)"

definition ensureElImport :: "'x estree list \<Rightarrow> 'x estree list" where
  "ensureElImport body =
     (case findOvertureDomImport body of
        Some body' \<Rightarrow> body'
      | None \<Rightarrow> ImportDeclaration [elSpecifier] ''overture/dom'' # body)"

subsection \<open>Import registry\<close>

text \<open>
  \<open>/^[A-Z]/.test(name)\<close>: the name starts with one of the letters A to Z.
  \<open>name.toLowerCase()\<close> is the language's own and a parameter here.
\<close>

definition isUpperAZ :: "char \<Rightarrow> bool" where
  "isUpperAZ c = (65 \<le> (of_char c :: nat) \<and> (of_char c :: nat) \<le> 90)"

definition startsUpper :: "string \<Rightarrow> bool" where
  "startsUpper name = (case name of [] \<Rightarrow> False | c # cs \<Rightarrow> isUpperAZ c)"

fun localName :: "specifier \<Rightarrow> string" where
  "localName (ImportSpecifier imported l) = l"
| "localName (ImportDefaultSpecifier l) = l"
| "localName (ImportNamespaceSpecifier l) = l"

definition registerSpecifier ::
  "(string \<Rightarrow> string) \<Rightarrow> (string \<rightharpoonup> string) \<Rightarrow> specifier \<Rightarrow> (string \<rightharpoonup> string)" where
  "registerSpecifier toLowerCase imports specifier =
     (let name = localName specifier
      in if startsUpper name then imports(toLowerCase name \<mapsto> name) else imports)"

fun registerNode ::
  "(string \<Rightarrow> string) \<Rightarrow> (string \<rightharpoonup> string) \<Rightarrow> 'x estree \<Rightarrow> (string \<rightharpoonup> string)" where
  "registerNode toLowerCase imports (ImportDeclaration specifiers source) =
     foldl (registerSpecifier toLowerCase) imports specifiers"
| "registerNode toLowerCase imports n = imports"

definition collectImports :: "(string \<Rightarrow> string) \<Rightarrow> 'x estree list \<Rightarrow> (string \<rightharpoonup> string)" where
  "collectImports toLowerCase body = foldl (registerNode toLowerCase) Map.empty body"

subsection \<open>Node classifier\<close>

text \<open>
  \<open>visit(hast, 'element', ...)\<close>: every node of type \<open>element\<close> is tested, and the
  children of every node are walked. \<open>standardTags\<close> is the set of the package
  \<open>html-tag-names\<close>, a parameter here. An empty \<open>klass\<close> is falsy.
\<close>

fun classify :: "(string \<Rightarrow> bool) \<Rightarrow> (string \<rightharpoonup> string) \<Rightarrow> node \<Rightarrow> node" where
  "classify standardTags imports (Element tagName props cs) =
     (if standardTags tagName then Element tagName props (map (classify standardTags imports) cs)
      else case imports tagName of
             None \<Rightarrow> Element tagName props (map (classify standardTags imports) cs)
           | Some klass \<Rightarrow>
               if klass = [] then Element tagName props (map (classify standardTags imports) cs)
               else View klass props (map (classify standardTags imports) cs))"
| "classify standardTags imports (Root cs) = Root (map (classify standardTags imports) cs)"
| "classify standardTags imports (View tagName props cs) =
     View tagName props (map (classify standardTags imports) cs)"
| "classify standardTags imports (Text v) = Text v"
| "classify standardTags imports (Comment v) = Comment v"
| "classify standardTags imports Doctype = Doctype"

subsection \<open>\<open>load\<close>\<close>

text \<open>
  \<open>load\<close> from the root's children on (the tree is what the markdown and raw-HTML passes
  give for the file), up to the module handed to \<open>generate\<close>. The root handler returns
  one node, so the \<open>Many\<close> case of the push is never taken.
\<close>

definition load ::
  "(jsval \<Rightarrow> 'x option) \<Rightarrow> (string option \<Rightarrow> jsval \<Rightarrow> 'x estree list option) \<Rightarrow> (string \<Rightarrow> string)
     \<Rightarrow> (string \<Rightarrow> bool) \<Rightarrow> node list \<Rightarrow> error + 'x estree list" where
  "load parseExpressionAt parse toLowerCase standardTags children =
     (case extractScripts parse children [] of
        Inl err \<Rightarrow> Inl err
      | Inr (kept, parsed) \<Rightarrow>
          (let body = ensureElImport parsed;
               imports = collectImports toLowerCase body;
               hast = classify standardTags imports (Root kept)
           in case toDraw parseExpressionAt hast of
                Inl err \<Rightarrow> Inl err
              | Inr (One draw) \<Rightarrow> Inr (body @ [draw])
              | Inr (Many draws) \<Rightarrow> Inr (body @ [ArrayExpression draws])))"

section \<open>Stand-ins for the examples\<close>

text \<open>
  Closed examples need a parser to run. These two agree with acorn on the inputs the
  examples give them: the empty text is not an expression (acorn throws), any other text
  of the examples parses, to a node that is named by its text here; acorn reads what it
  is given through \<open>String\<close>, so an array through the texts of its items joined by
  commas. A script parses to one statement named by its text, the empty script to none,
  and \<open>undefined\<close> to the statement \<open>undefined\<close>.
\<close>

fun textOf :: "jsval \<Rightarrow> string" where
  "textOf (VStr s) = s"
| "textOf (VArr xs) = joinWith '','' (map itemText xs)"
| "textOf (VBool b) = (if b then ''true'' else ''false'')"
| "textOf (VNum (Number t)) = t"

definition exprOfText :: "jsval \<Rightarrow> string option" where
  "exprOfText v = (if textOf v = [] then None else Some (textOf v))"

definition stmtsOfText :: "string option \<Rightarrow> jsval \<Rightarrow> string estree list option" where
  "stmtsOfText text sourceType =
     (case text of
        None \<Rightarrow> Some [Parsed ''undefined'']
      | Some t \<Rightarrow> if t = [] then Some [] else Some [Parsed t])"

text \<open>The same, but the text \<open>(\<close> is no script: on it acorn throws.\<close>

definition stmtsUnlessParen :: "string option \<Rightarrow> jsval \<Rightarrow> string estree list option" where
  "stmtsUnlessParen text sourceType =
     (if text = Some ''('' then None else stmtsOfText text sourceType)"

text \<open>
  \<open>toLowerCase\<close> on names of ASCII characters, as the examples have them: the letters A
  to Z go to a to z, every other character is kept.
\<close>

definition toLowerChar :: "char \<Rightarrow> char" where
  "toLowerChar c = (if isUpperAZ c then char_of ((of_char c :: nat) + 32) else c)"

definition lowerASCII :: "string \<Rightarrow> string" where
  "lowerASCII name = map toLowerChar name"

text \<open>
  A few of the standard tag names, for the examples; \<open>foo\<close> and the SVG name
  \<open>foreignObject\<close> are not among the names of \<open>html-tag-names\<close>.
\<close>

definition someStandardTags :: "string \<Rightarrow> bool" where
  "someStandardTags t = (t \<in> set [''a'', ''div'', ''p'', ''span'', ''svg'', ''script''])"

section \<open>Notions the claims are stated with\<close>

text \<open>
  The brace depth of a list of items: the number of opening items less the number of
  closing items.
\<close>

definition braceDepth :: "('a \<Rightarrow> bool) \<Rightarrow> ('a \<Rightarrow> bool) \<Rightarrow> 'a list \<Rightarrow> int" where
  "braceDepth isOpen isClose xs = int (length (filter isOpen xs)) - int (length (filter isClose xs))"

text \<open>The depth after the first \<open>k\<close> characters of a string.\<close>

definition depthAfter :: "string \<Rightarrow> nat \<Rightarrow> int" where
  "depthAfter s k = braceDepth (\<lambda>c. c = CHR ''{'') (\<lambda>c. c = CHR ''}'') (take k s)"

text \<open>
  \<open>st\<close> and \<open>en\<close> delimit the first span of \<open>s\<close>: an opening brace at \<open>st\<close> met at depth
  0, the depth positive from there up to the closing brace at \<open>en\<close>, which brings it back
  to 0, and no closing brace before \<open>en\<close> that brings the depth to 0.
\<close>

definition firstSpan :: "string \<Rightarrow> nat \<Rightarrow> nat \<Rightarrow> bool" where
  "firstSpan s st en \<longleftrightarrow>
     st < en \<and> en < length s \<and> s ! st = CHR ''{'' \<and> s ! en = CHR ''}'' \<and>
     depthAfter s st = 0 \<and>
     (\<forall>k \<in> {st<..en}. 0 < depthAfter s k) \<and>
     depthAfter s (Suc en) = 0 \<and>
     (\<forall>i \<in> {..<en}. \<not> (s ! i = CHR ''}'' \<and> depthAfter s (Suc i) = 0))"

text \<open>The same for any items, and the invariant of the loop of \<open>findExpression\<close>.\<close>

definition spanAt :: "('a \<Rightarrow> bool) \<Rightarrow> ('a \<Rightarrow> bool) \<Rightarrow> 'a list \<Rightarrow> nat \<Rightarrow> nat \<Rightarrow> bool" where
  "spanAt isO isC s st en \<longleftrightarrow>
     st < en \<and> en < length s \<and> isO (s ! st) \<and> isC (s ! en) \<and>
     braceDepth isO isC (take st s) = 0 \<and>
     (\<forall>k \<in> {st<..en}. 0 < braceDepth isO isC (take k s)) \<and>
     braceDepth isO isC (take (Suc en) s) = 0 \<and>
     (\<forall>i \<in> {..<en}. \<not> (isC (s ! i) \<and> braceDepth isO isC (take (Suc i) s) = 0))"

definition loopInv :: "('a \<Rightarrow> bool) \<Rightarrow> ('a \<Rightarrow> bool) \<Rightarrow> 'a list \<Rightarrow> nat \<Rightarrow> int \<Rightarrow> nat \<Rightarrow> bool" where
  "loopInv isO isC s pos ob start \<longleftrightarrow>
     pos \<le> length s \<and> ob = braceDepth isO isC (take pos s) \<and>
     (\<forall>i<pos. \<not> (isC (s ! i) \<and> braceDepth isO isC (take (Suc i) s) = 0)) \<and>
     (0 < ob \<longrightarrow> start < pos \<and> isO (s ! start) \<and> braceDepth isO isC (take start s) = 0 \<and>
        (\<forall>k. start < k \<and> k \<le> pos \<longrightarrow> 0 < braceDepth isO isC (take k s)))"

text \<open>
  The nodes \<open>toDraw\<close> is called on below a node, itself included, when no exception
  ends the lowering: the kept children, and theirs.
\<close>

fun reached :: "node \<Rightarrow> node list" where
  "reached (Root cs) = Root cs # concat (map reached (filter keepChild cs))"
| "reached (Element tagName props cs) =
     Element tagName props cs # concat (map reached (filter keepChild cs))"
| "reached (View tagName props cs) =
     View tagName props cs # concat (map reached (filter keepChild cs))"
| "reached (Text v) = [Text v]"
| "reached (Comment v) = [Comment v]"
| "reached Doctype = [Doctype]"

text \<open>\<open>node.type\<close>.\<close>

fun nodeType :: "node \<Rightarrow> string" where
  "nodeType (Root cs) = ''root''"
| "nodeType (Element tagName props cs) = ''element''"
| "nodeType (Text v) = ''text''"
| "nodeType (Comment v) = ''comment''"
| "nodeType Doctype = ''doctype''"
| "nodeType (View tagName props cs) = ''view''"

text \<open>
  What every entry of the registry satisfies: the identifier starts with a capital letter
  and its key is its lower-cased form.
\<close>

definition registryOK :: "(string \<Rightarrow> string) \<Rightarrow> (string \<rightharpoonup> string) \<Rightarrow> bool" where
  "registryOK toLowerCase m \<longleftrightarrow>
     (\<forall>k v. m k = Some v \<longrightarrow> startsUpper v \<and> toLowerCase v = k)"

text \<open>
  The handler of a node meets no syntax error of its own: the value of a text node
  splits, the attributes of an element or view lower (those of a script element are never
  lowered: its handler throws before).
\<close>

fun noSyntaxErrorAt :: "(jsval \<Rightarrow> 'x option) \<Rightarrow> node \<Rightarrow> bool" where
  "noSyntaxErrorAt P (Text v) = (\<not> isl (handleExpressions P (VStr v)))"
| "noSyntaxErrorAt P (Element tagName props cs) =
     (tagName = ''script'' \<or> \<not> isl (parseProperties P props))"
| "noSyntaxErrorAt P (View tagName props cs) = (\<not> isl (parseProperties P props))"
| "noSyntaxErrorAt P n = True"


text \<open>
  The source of an import declaration; whether a statement is an import from a source;
  whether it is an import from \<open>'overture/dom'\<close> that has a specifier of \<open>el\<close>.
\<close>

fun importSource :: "'x estree \<Rightarrow> string option" where
  "importSource (ImportDeclaration specifiers source) = Some source"
| "importSource n = None"

definition isImportFrom :: "string \<Rightarrow> 'x estree \<Rightarrow> bool" where
  "isImportFrom source n = (importSource n = Some source)"

fun importsEl :: "'x estree \<Rightarrow> bool" where
  "importsEl (ImportDeclaration specifiers source) =
     (source = ''overture/dom'' \<and> list_ex isElSpecifier specifiers)"
| "importsEl n = False"


section \<open>Lemmas\<close>

subsection \<open>The loop finds the first span\<close>

lemma braceDepth_Nil [simp]: "braceDepth isO isC [] = 0"
  by (simp add: braceDepth_def)

lemma braceDepth_take_Suc:
  "i < length s \<Longrightarrow> braceDepth isO isC (take (Suc i) s) =
     braceDepth isO isC (take i s) + (if isO (s ! i) then 1 else 0) - (if isC (s ! i) then 1 else 0)"
  by (simp add: braceDepth_def take_Suc_conv_app_nth)

lemma loopInv_step:
  assumes excl: "\<And>c. isC c \<Longrightarrow> \<not> isO c"
    and inv: "loopInv isO isC s pos ob start" and pos: "pos < length s"
    and nostop: "\<not> (isC (s ! pos) \<and> braceDepth isO isC (take (Suc pos) s) = 0)"
  shows "loopInv isO isC s (Suc pos)
           (braceDepth isO isC (take (Suc pos) s))
           (if isO (s ! pos) \<and> ob = 0 then pos else start)"
proof -
  let ?d = "\<lambda>k. braceDepth isO isC (take k s)"
  let ?start' = "if isO (s ! pos) \<and> ob = 0 then pos else start"
  have ob: "ob = ?d pos" using inv by (simp add: loopInv_def)
  have step: "?d (Suc pos) = ?d pos + (if isO (s ! pos) then 1 else 0) - (if isC (s ! pos) then 1 else 0)"
    using pos by (rule braceDepth_take_Suc)
  have early: "\<forall>i<Suc pos. \<not> (isC (s ! i) \<and> ?d (Suc i) = 0)"
  proof (intro allI impI)
    fix i assume "i < Suc pos"
    then consider "i < pos" | "i = pos" by linarith
    then show "\<not> (isC (s ! i) \<and> ?d (Suc i) = 0)"
    proof cases
      case 1 then show ?thesis using inv by (simp add: loopInv_def)
    next
      case 2 then show ?thesis using nostop by simp
    qed
  qed
  have start: "?start' < Suc pos \<and> isO (s ! ?start') \<and> ?d ?start' = 0 \<and>
        (\<forall>k. ?start' < k \<and> k \<le> Suc pos \<longrightarrow> 0 < ?d k)" if pos': "0 < ?d (Suc pos)"
  proof (cases "isO (s ! pos) \<and> ob = 0")
    case True
    then show ?thesis using ob pos' by (auto simp: le_Suc_eq)
  next
    case False
    have "0 < ob"
    proof (rule ccontr)
      assume "\<not> 0 < ob"
      then show False using False pos' step ob by (auto split: if_splits)
    qed
    then have old: "start < pos" "isO (s ! start)" "?d start = 0"
      "\<forall>k. start < k \<and> k \<le> pos \<longrightarrow> 0 < ?d k"
      using inv by (simp_all add: loopInv_def)
    have "\<forall>k. start < k \<and> k \<le> Suc pos \<longrightarrow> 0 < ?d k"
    proof (intro allI impI)
      fix k assume k: "start < k \<and> k \<le> Suc pos"
      then consider "k \<le> pos" | "k = Suc pos" by linarith
      then show "0 < ?d k"
      proof cases
        case 1 then show ?thesis using old(4) k by simp
      next
        case 2 then show ?thesis using pos' by simp
      qed
    qed
    moreover have "?start' = start" using False by auto
    ultimately show ?thesis using old by (simp add: less_Suc_eq)
  qed
  show ?thesis
    unfolding loopInv_def using pos early start by simp
qed

lemma findLoop_unfold:
  assumes excl: "\<And>c. isC c \<Longrightarrow> \<not> isO c"
    and inv: "loopInv isO isC s pos ob start" and pos: "pos < length s"
  shows "findLoop isO isC (drop pos s) pos ob start =
     (if isC (s ! pos) \<and> braceDepth isO isC (take (Suc pos) s) = 0 then Some (start, pos)
      else findLoop isO isC (drop (Suc pos) s) (Suc pos)
             (braceDepth isO isC (take (Suc pos) s))
             (if isO (s ! pos) \<and> ob = 0 then pos else start))"
proof -
  have ob: "ob = braceDepth isO isC (take pos s)" using inv by (simp add: loopInv_def)
  have d: "drop pos s = s ! pos # drop (Suc pos) s" using pos by (simp add: Cons_nth_drop_Suc)
  show ?thesis
    unfolding d findLoop.simps Let_def braceDepth_take_Suc [OF pos] ob
    using excl [of "s ! pos"] by auto
qed

lemma findLoop_sound:
  assumes excl: "\<And>c. isC c \<Longrightarrow> \<not> isO c"
  shows "loopInv isO isC s pos ob start \<Longrightarrow>
    findLoop isO isC (drop pos s) pos ob start = Some (st, en) \<Longrightarrow> spanAt isO isC s st en"
proof (induction "length s - pos" arbitrary: pos ob start)
  case 0
  then have "drop pos s = []" by simp
  with 0 show ?case by simp
next
  case (Suc n)
  then have pos: "pos < length s" by linarith
  note unf = findLoop_unfold [OF excl Suc.prems(1) pos]
  show ?case
  proof (cases "isC (s ! pos) \<and> braceDepth isO isC (take (Suc pos) s) = 0")
    case True
    with unf Suc.prems(2) have se: "st = start" "en = pos" by simp_all
    have "\<not> isO (s ! pos)" using True excl by blast
    then have "ob = 1"
      using True Suc.prems(1) braceDepth_take_Suc [OF pos, of isO isC]
      by (simp add: loopInv_def)
    then show ?thesis
      using True Suc.prems(1) pos unfolding se spanAt_def loopInv_def by simp
  next
    case False
    have inv': "loopInv isO isC s (Suc pos) (braceDepth isO isC (take (Suc pos) s))
           (if isO (s ! pos) \<and> ob = 0 then pos else start)"
      by (rule loopInv_step [OF excl Suc.prems(1) pos False])
    have "n = length s - Suc pos" using Suc.hyps(2) by linarith
    from Suc.hyps(1) [OF this inv'] unf False Suc.prems(2) show ?thesis by simp
  qed
qed

lemma findLoop_none:
  assumes excl: "\<And>c. isC c \<Longrightarrow> \<not> isO c"
  shows "loopInv isO isC s pos ob start \<Longrightarrow>
    findLoop isO isC (drop pos s) pos ob start = None \<Longrightarrow>
    (\<forall>i<length s. \<not> (isC (s ! i) \<and> braceDepth isO isC (take (Suc i) s) = 0))"
proof (induction "length s - pos" arbitrary: pos ob start)
  case 0
  then show ?case by (simp add: loopInv_def)
next
  case (Suc n)
  then have pos: "pos < length s" by linarith
  note unf = findLoop_unfold [OF excl Suc.prems(1) pos]
  show ?case
  proof (cases "isC (s ! pos) \<and> braceDepth isO isC (take (Suc pos) s) = 0")
    case True
    with unf Suc.prems(2) show ?thesis by simp
  next
    case False
    have inv': "loopInv isO isC s (Suc pos) (braceDepth isO isC (take (Suc pos) s))
           (if isO (s ! pos) \<and> ob = 0 then pos else start)"
      by (rule loopInv_step [OF excl Suc.prems(1) pos False])
    have "n = length s - Suc pos" using Suc.hyps(2) by linarith
    from Suc.hyps(1) [OF this inv'] unf False Suc.prems(2) show ?thesis by simp
  qed
qed

lemma loopInv_init: "loopInv isO isC s 0 0 0"
  by (simp add: loopInv_def)

lemma spanAt_unique:
  assumes a: "spanAt isO isC s st en" and b: "spanAt isO isC s st' en'"
  shows "st' = st \<and> en' = en"
proof -
  let ?d = "\<lambda>k. braceDepth isO isC (take k s)"
  from a have a1: "st < en" "isC (s ! en)" "?d (Suc en) = 0" "?d st = 0"
    and a2: "\<And>k. st < k \<Longrightarrow> k \<le> en \<Longrightarrow> 0 < ?d k"
    and a3: "\<And>i. i < en \<Longrightarrow> \<not> (isC (s ! i) \<and> ?d (Suc i) = 0)"
    by (simp_all add: spanAt_def)
  from b have b1: "st' < en'" "isC (s ! en')" "?d (Suc en') = 0" "?d st' = 0"
    and b2: "\<And>k. st' < k \<Longrightarrow> k \<le> en' \<Longrightarrow> 0 < ?d k"
    and b3: "\<And>i. i < en' \<Longrightarrow> \<not> (isC (s ! i) \<and> ?d (Suc i) = 0)"
    by (simp_all add: spanAt_def)
  have en: "en' = en"
  proof (rule ccontr)
    assume "en' \<noteq> en"
    then consider "en < en'" | "en' < en" by linarith
    then show False
    proof cases
      case 1 then show False using b3 [of en] a1 by simp
    next
      case 2 then show False using a3 [of en'] b1 by simp
    qed
  qed
  have "st' = st"
  proof (rule ccontr)
    assume "st' \<noteq> st"
    then consider "st < st'" | "st' < st" by linarith
    then show False
    proof cases
      case 1 then show False using a2 [of st'] b1 en by simp
    next
      case 2 then show False using b2 [of st] a1 en by simp
    qed
  qed
  with en show ?thesis by simp
qed

lemma firstSpan_spanAt: "firstSpan s st en = spanAt (\<lambda>c. c = CHR ''{'') (\<lambda>c. c = CHR ''}'') s st en"
  by (simp add: firstSpan_def spanAt_def depthAfter_def)

lemma findChars_sound: "findChars s = Some (st, en) \<Longrightarrow> firstSpan s st en"
  unfolding findChars_def firstSpan_spanAt
  by (rule findLoop_sound [OF _ loopInv_init]) auto

lemma findChars_none:
  "findChars s = None \<Longrightarrow> i < length s \<Longrightarrow> \<not> (s ! i = CHR ''}'' \<and> depthAfter s (Suc i) = 0)"
  unfolding findChars_def depthAfter_def
  using findLoop_none [where isO = "\<lambda>c. c = CHR ''{''" and isC = "\<lambda>c. c = CHR ''}''", OF _ loopInv_init]
  by auto

lemma findChars_Some_iff: "findChars s = Some (st, en) \<longleftrightarrow> firstSpan s st en"
proof
  assume "findChars s = Some (st, en)"
  then show "firstSpan s st en" by (rule findChars_sound)
next
  assume fs: "firstSpan s st en"
  have "findChars s \<noteq> None"
  proof
    assume "findChars s = None"
    from findChars_none [OF this, of en] fs show False by (simp add: firstSpan_def)
  qed
  then obtain st' en' where f: "findChars s = Some (st', en')" by auto
  then have "firstSpan s st' en'" by (rule findChars_sound)
  with fs have "st' = st \<and> en' = en" unfolding firstSpan_spanAt by (rule spanAt_unique)
  with f show "findChars s = Some (st, en)" by simp
qed

lemma findChars_None_iff:
  "findChars s = None \<longleftrightarrow> (\<forall>i<length s. \<not> (s ! i = CHR ''}'' \<and> depthAfter s (Suc i) = 0))"
proof
  assume "findChars s = None"
  then show "\<forall>i<length s. \<not> (s ! i = CHR ''}'' \<and> depthAfter s (Suc i) = 0)"
    using findChars_none by blast
next
  assume n: "\<forall>i<length s. \<not> (s ! i = CHR ''}'' \<and> depthAfter s (Suc i) = 0)"
  show "findChars s = None"
  proof (rule ccontr)
    assume "findChars s \<noteq> None"
    then obtain st en where "findChars s = Some (st, en)" by auto
    then have "firstSpan s st en" by (rule findChars_sound)
    with n show False unfolding firstSpan_def by blast
  qed
qed

lemma firstSpan_parts:
  assumes "firstSpan s st en"
  shows "s = take st s @ ''{'' @ take (en - Suc st) (drop (Suc st) s) @ ''}'' @ drop (Suc en) s"
proof -
  from assms have b: "st < en" "en < length s" "s ! st = CHR ''{''" "s ! en = CHR ''}''"
    by (simp_all add: firstSpan_def)
  have 1: "s = take st s @ drop st s" by simp
  have 2: "drop st s = s ! st # drop (Suc st) s" using b(1,2) by (simp add: Cons_nth_drop_Suc)
  have 3: "drop (Suc st) s = take (en - Suc st) (drop (Suc st) s) @ drop (en - Suc st) (drop (Suc st) s)"
    by (rule append_take_drop_id [symmetric])
  have 4: "drop (en - Suc st) (drop (Suc st) s) = drop en s" using b(1) by simp
  have 5: "drop en s = s ! en # drop (Suc en) s" using b(2) by (simp add: Cons_nth_drop_Suc)
  show ?thesis
    using 1 2 3 4 5 b by (metis append_Cons append_Nil)
qed

lemma handleExpressions_span:
  assumes "firstSpan s st en"
  shows "handleExpressions P (VStr s) =
     (case P (VStr (take (en - Suc st) (drop (Suc st) s))) of
        None \<Rightarrow> Inl SyntaxError
      | Some x \<Rightarrow>
          Inr (Many ((if take st s = [] then [] else [Literal (VStr (take st s))])
                     @ [Parsed x]
                     @ (if drop (Suc en) s = [] then [] else [Literal (VStr (drop (Suc en) s))]))))"
proof -
  from assms have f: "findChars s = Some (st, en)" by (simp add: findChars_Some_iff)
  from assms have b: "st < en" "en < length s" by (simp_all add: firstSpan_def)
  then have "(take st s = []) = (\<not> 0 < st)" by auto
  moreover have "(drop (Suc en) s = []) = (\<not> en + 1 < length s)" by auto
  ultimately show ?thesis
    using f by (simp add: handleExpressions_def split: option.splits)
qed

lemma handleExpressions_no_span:
  "findChars s = None \<Longrightarrow> handleExpressions P (VStr s) = Inr (One (Literal (VStr s)))"
  by (simp add: handleExpressions_def)

lemma findChars_None_no_span: "findChars s = None \<longleftrightarrow> (\<forall>st en. \<not> firstSpan s st en)"
proof -
  have "findChars s = None \<longleftrightarrow> (\<forall>st en. findChars s \<noteq> Some (st, en))"
    by (cases "findChars s") auto
  then show ?thesis by (simp add: findChars_Some_iff)
qed

subsection \<open>A depth that never comes back to 0\<close>

lemma depthAfter_Suc:
  "k < length s \<Longrightarrow> depthAfter s (Suc k) =
     depthAfter s k + (if s ! k = CHR ''{'' then 1 else 0) - (if s ! k = CHR ''}'' then 1 else 0)"
  unfolding depthAfter_def by (rule braceDepth_take_Suc)

lemma never_returns_no_span:
  assumes "\<forall>k \<in> {..<length s}. depthAfter s (Suc k) = 0 \<longrightarrow> depthAfter s k = 0"
  shows "findChars s = None"
proof -
  have "\<not> (s ! i = CHR ''}'' \<and> depthAfter s (Suc i) = 0)" if i: "i < length s" for i
  proof
    assume c: "s ! i = CHR ''}'' \<and> depthAfter s (Suc i) = 0"
    then have c1: "s ! i = CHR ''}''" and c2: "depthAfter s (Suc i) = 0" by simp_all
    from assms i c2 have "depthAfter s i = 0" by simp
    moreover have "depthAfter s (Suc i) = depthAfter s i - 1"
      using depthAfter_Suc [OF i] c1 by simp
    ultimately show False using c2 by simp
  qed
  then show ?thesis by (simp add: findChars_None_iff)
qed

subsection \<open>Errors go up the tree\<close>

lemma reached_self: "n \<in> set (reached n)"
  by (cases n) simp_all

lemma flatMapE_fail:
  "c \<in> set cs \<Longrightarrow> f c = Inl e \<Longrightarrow> \<exists>e'. flatMapE f cs = Inl e'"
  by (induction cs) (auto split: sum.splits)

lemma flatMapE_Inl:
  "flatMapE f cs = Inl e \<Longrightarrow> \<exists>c \<in> set cs. f c = Inl e"
  by (induction cs) (auto split: sum.splits)

lemma flatMapE_append:
  "flatMapE f (a @ b) =
     (case flatMapE f a of
        Inl e \<Rightarrow> Inl e
      | Inr ra \<Rightarrow> (case flatMapE f b of Inl e \<Rightarrow> Inl e | Inr rb \<Rightarrow> Inr (ra @ rb)))"
  by (induction a) (auto split: sum.splits)

lemma toDraw_children_fail:
  assumes "c \<in> set cs" "keepChild c" "toDraw P c = Inl e"
  shows "\<exists>e'. toDraw P (Root cs) = Inl e'"
    and "\<exists>e'. toDraw P (Element tagName props cs) = Inl e'"
    and "\<exists>e'. toDraw P (View tagName props cs) = Inl e'"
proof -
  from assms have "c \<in> set (filter keepChild cs)" by simp
  from flatMapE_fail [where f = "toDraw P", OF this assms(3)]
  obtain e' where "flatMapE (toDraw P) (filter keepChild cs) = Inl e'" by blast
  then show "\<exists>e'. toDraw P (Root cs) = Inl e'"
    and "\<exists>e'. toDraw P (Element tagName props cs) = Inl e'"
    and "\<exists>e'. toDraw P (View tagName props cs) = Inl e'"
    by simp_all
qed

lemma toDraw_fail_reached:
  "n \<in> set (reached t) \<Longrightarrow> toDraw P n = Inl e \<Longrightarrow> \<exists>e'. toDraw P t = Inl e'"
proof (induction t arbitrary: e)
  case (Root cs)
  show ?case
  proof (cases "n = Root cs")
    case True with Root.prems show ?thesis by blast
  next
    case False
    with Root.prems obtain c where c: "c \<in> set cs" "keepChild c" "n \<in> set (reached c)" by auto
    from Root.IH [OF c(1) c(3) Root.prems(2)] obtain e' where "toDraw P c = Inl e'" by blast
    from toDraw_children_fail(1) [OF c(1) c(2) this] show ?thesis .
  qed
next
  case (Element tagName props cs)
  show ?case
  proof (cases "n = Element tagName props cs")
    case True with Element.prems show ?thesis by blast
  next
    case False
    with Element.prems obtain c where c: "c \<in> set cs" "keepChild c" "n \<in> set (reached c)" by auto
    from Element.IH [OF c(1) c(3) Element.prems(2)] obtain e' where "toDraw P c = Inl e'" by blast
    from toDraw_children_fail(2) [OF c(1) c(2) this] show ?thesis .
  qed
next
  case (View tagName props cs)
  show ?case
  proof (cases "n = View tagName props cs")
    case True with View.prems show ?thesis by blast
  next
    case False
    with View.prems obtain c where c: "c \<in> set cs" "keepChild c" "n \<in> set (reached c)" by auto
    from View.IH [OF c(1) c(3) View.prems(2)] obtain e' where "toDraw P c = Inl e'" by blast
    from toDraw_children_fail(3) [OF c(1) c(2) this] show ?thesis .
  qed
qed auto

subsection \<open>Which error\<close>

lemma handleExpressions_error: "handleExpressions P v = Inl e \<Longrightarrow> e = SyntaxError"
  by (auto simp: handleExpressions_def split: option.splits prod.splits)

lemma lowerProperty_error: "lowerProperty P k v = Inl e \<Longrightarrow> e = SyntaxError"
  by (auto simp: lowerProperty_def split: sum.splits lowered.splits dest: handleExpressions_error)

lemma reduceProperties_error: "reduceProperties P acc props = Inl e \<Longrightarrow> e = SyntaxError"
  by (induction P acc props rule: reduceProperties.induct)
     (auto split: sum.splits dest: lowerProperty_error)

lemma reduceProperties_fail:
  "(k, v) \<in> set props \<Longrightarrow> lowerProperty P k v = Inl e \<Longrightarrow>
     reduceProperties P acc props = Inl SyntaxError"
proof (induction P acc props rule: reduceProperties.induct)
  case (1 P acc) then show ?case by simp
next
  case (2 P acc key v' entries)
  show ?case
  proof (cases "lowerProperty P key v'")
    case (Inl err)
    then show ?thesis using lowerProperty_error [OF Inl] by simp
  next
    case (Inr l)
    with 2 show ?thesis by auto
  qed
qed

lemma parseProperties_fail:
  "(k, v) \<in> set props \<Longrightarrow> lowerProperty P k v = Inl e \<Longrightarrow> parseProperties P props = Inl SyntaxError"
  unfolding parseProperties_def by (rule reduceProperties_fail) (auto simp: objectEntries_def)

lemma parseProperties_error: "parseProperties P props = Inl e \<Longrightarrow> e = SyntaxError"
  unfolding parseProperties_def by (rule reduceProperties_error)

lemma toDraw_properties_fail:
  assumes "parseProperties P props = Inl e"
  shows "\<exists>e'. toDraw P (Element tagName props cs) = Inl e'"
    and "\<exists>e'. toDraw P (View tagName props cs) = Inl e'"
  using assms by (auto simp: handleElement_def handleView_def split: sum.splits)

subsection \<open>Extraction and classification keep what is lowered\<close>

lemma parseScripts_error: "parseScripts Q ty scripts body = Inl e \<Longrightarrow> e = SyntaxError"
  by (induction Q ty scripts body rule: parseScripts.induct) (auto split: option.splits)

lemma extractScripts_error: "extractScripts Q cs body = Inl e \<Longrightarrow> e = SyntaxError"
  by (induction Q cs body rule: extractScripts.induct)
     (auto split: if_splits sum.splits prod.splits dest: parseScripts_error)

lemma extractScripts_kept:
  "extractScripts Q cs body = Inr (kept, body') \<Longrightarrow>
     kept = filter (\<lambda>c. tagNameOf c \<noteq> Some ''script'') cs"
  by (induction Q cs body arbitrary: kept body' rule: extractScripts.induct)
     (auto split: if_splits sum.splits prod.splits)

lemma keepChild_classify [simp]: "keepChild (classify std imports c) = keepChild c"
  by (cases c) (auto split: option.splits)

lemma reached_classify_children:
  assumes "\<And>c. c \<in> set cs \<Longrightarrow> reached (classify std imports c) = map (classify std imports) (reached c)"
  shows "concat (map reached (filter keepChild (map (classify std imports) cs))) =
         map (classify std imports) (concat (map reached (filter keepChild cs)))"
proof -
  have f: "filter keepChild (map (classify std imports) cs) = map (classify std imports) (filter keepChild cs)"
    by (simp add: filter_map comp_def)
  have m: "map (\<lambda>c. reached (classify std imports c)) (filter keepChild cs) =
        map (\<lambda>c. map (classify std imports) (reached c)) (filter keepChild cs)"
    by (rule map_cong) (simp_all add: assms)
  have "concat (map reached (map (classify std imports) (filter keepChild cs))) =
        concat (map (\<lambda>c. reached (classify std imports c)) (filter keepChild cs))"
    by (simp add: comp_def)
  also have "\<dots> = concat (map (\<lambda>c. map (classify std imports) (reached c)) (filter keepChild cs))"
    by (simp only: m)
  also have "\<dots> = map (classify std imports) (concat (map reached (filter keepChild cs)))"
    by (simp add: map_concat comp_def)
  finally show ?thesis unfolding f .
qed

lemma reached_classify:
  "reached (classify std imports t) = map (classify std imports) (reached t)"
proof (induction t)
  case (Root cs)
  then show ?case by (simp add: reached_classify_children)
next
  case (Element tagName props cs)
  then show ?case by (simp add: reached_classify_children split: option.splits)
next
  case (View tagName props cs)
  then show ?case by (simp add: reached_classify_children)
qed simp_all

lemma newline_is_literal: "toDraw P (Text [CHR 0x0A]) = Inr (One (Literal (VStr [CHR 0x0A])))"
proof -
  have "findChars [CHR 0x0A] = None" by (simp add: findChars_def)
  then show ?thesis by (simp add: handleExpressions_no_span)
qed

lemma not_kept_child: "\<not> keepChild c \<Longrightarrow> c = Text [CHR 0x0A]"
  by (cases c) simp_all

lemma reached_child_Root:
  "c \<in> set cs \<Longrightarrow> keepChild c \<Longrightarrow> n \<in> set (reached c) \<Longrightarrow> n \<in> set (reached (Root cs))"
  by auto

lemma load_fail:
  assumes c: "c \<in> set children" "tagNameOf c \<noteq> Some ''script''"
    and n: "n \<in> set (reached c)"
    and f: "\<And>imports. \<exists>e. toDraw P (classify std imports n) = Inl e"
  shows "\<exists>e. load P Q lc std children = Inl e"
proof (cases "extractScripts Q children []")
  case (Inl e)
  then show ?thesis by (simp add: load_def)
next
  case (Inr r)
  obtain kept parsed where r: "r = (kept, parsed)" by (cases r)
  with Inr have k: "kept = filter (\<lambda>c. tagNameOf c \<noteq> Some ''script'') children"
    by (simp add: extractScripts_kept)
  define imps where "imps = collectImports lc (ensureElImport parsed)"
  let ?cl = "classify std imps"
  from f obtain e where e: "toDraw P (?cl n) = Inl e" by blast
  have kc: "keepChild c"
  proof (rule ccontr)
    assume "\<not> keepChild c"
    then have "c = Text [CHR 0x0A]" by (rule not_kept_child)
    with n e have "toDraw P (Text [CHR 0x0A]) = Inl e" by (simp del: toDraw.simps)
    then show False unfolding newline_is_literal by simp
  qed
  have "?cl n \<in> set (reached (?cl c))" using n by (simp add: reached_classify)
  moreover have "?cl c \<in> set (map ?cl kept)" using c k by simp
  moreover have "keepChild (?cl c)" using kc by simp
  ultimately have "?cl n \<in> set (reached (Root (map ?cl kept)))"
    by (rule reached_child_Root [rotated 2])
  from toDraw_fail_reached [OF this e] obtain e' where "toDraw P (?cl (Root kept)) = Inl e'"
    by auto
  then show ?thesis using Inr r by (simp add: load_def Let_def imps_def)
qed

subsection \<open>The lowering of one value\<close>

lemma handleExpressions_empty_span:
  assumes "firstSpan s st (Suc st)" and "P (VStr '''') = None"
  shows "handleExpressions P (VStr s) = Inl SyntaxError"
  using handleExpressions_span [OF assms(1), of P] assms(2) by simp

lemma lowerProperty_VStr:
  "lowerProperty P key (VStr s) =
     (case handleExpressions P (VStr s) of
        Inl err \<Rightarrow> Inl err
      | Inr (Many parts) \<Rightarrow> Inr (joinCall parts)
      | Inr (One lit) \<Rightarrow> Inr lit)"
  by (simp add: lowerProperty_def joinClassName_def)

lemma lowerProperty_className:
  "lowerProperty P ''className'' (VArr tokens) =
     lowerProperty P ''className'' (VStr (joinWith '' '' (map itemText tokens)))"
  by (simp add: lowerProperty_def joinClassName_def)

subsection \<open>Arrays of tokens\<close>

lemma findLoop_no_close:
  "\<forall>x \<in> set xs. \<not> isClose x \<Longrightarrow> findLoop isOpen isClose xs pos ob start = None"
  by (induction xs arbitrary: pos ob start) (simp_all add: Let_def)

lemma findItems_no_close: "IStr ''}'' \<notin> set items \<Longrightarrow> findItems items = None"
  unfolding findItems_def by (rule findLoop_no_close) auto

lemma lowerProperty_array_literal:
  "key \<noteq> ''className'' \<Longrightarrow> IStr ''}'' \<notin> set items \<Longrightarrow>
     lowerProperty P key (VArr items) = Inr (Literal (VArr items))"
  by (simp add: lowerProperty_def joinClassName_def handleExpressions_def findItems_no_close)

subsection \<open>The listing of an object\<close>

lemma set_objectEntries [simp]: "set (objectEntries xs) = set xs"
  by (auto simp: objectEntries_def)












subsection \<open>The properties of a node, one by one\<close>

lemma keys_setProperty: "fst ` set (setProperty k v obj) = insert k (fst ` set obj)"
  by (force simp: setProperty_def image_iff split: if_splits)


lemma reduceProperties_keys:
  "reduceProperties P acc entries = Inr out \<Longrightarrow> fst ` set out = fst ` set acc \<union> fst ` set entries"
  by (induction P acc entries rule: reduceProperties.induct)
     (auto simp: keys_setProperty split: sum.splits)

lemma parseProperties_keys:
  "parseProperties P props = Inr out \<Longrightarrow> fst ` set out = fst ` set props"
  unfolding parseProperties_def by (drule reduceProperties_keys) simp



subsection \<open>Joining\<close>

lemma joinWith_Cons: "joinWith sep (t # ts) = t @ concat (map (\<lambda>u. sep @ u) ts)"
  by (induction sep "t # ts" arbitrary: t ts rule: joinWith.induct) simp_all

lemma joinWith_append:
  "xs \<noteq> [] \<Longrightarrow> ys \<noteq> [] \<Longrightarrow> joinWith sep (xs @ ys) = joinWith sep xs @ sep @ joinWith sep ys"
  by (cases xs; cases ys) (simp_all add: joinWith_Cons)

subsection \<open>One child among the others\<close>

lemma flatMapE_middle:
  assumes "keepChild c" "toDraw P c = Inr r"
  shows "flatMapE (toDraw P) (filter keepChild (before @ [c] @ after)) =
     (case flatMapE (toDraw P) (filter keepChild before) of
        Inl e \<Rightarrow> Inl e
      | Inr rb \<Rightarrow>
          (case flatMapE (toDraw P) (filter keepChild after) of
             Inl e \<Rightarrow> Inl e
           | Inr ra \<Rightarrow> Inr (rb @ spliced r @ ra)))"
  using assms by (simp add: flatMapE_append split: sum.splits)

lemma span_text_kept: "firstSpan v st en \<Longrightarrow> keepChild (Text v)"
  by (auto simp: firstSpan_def)

subsection \<open>Documents without scripts\<close>

lemma extractScripts_no_script:
  "\<forall>c \<in> set cs. tagNameOf c \<noteq> Some ''script'' \<Longrightarrow> extractScripts Q cs body = Inr (cs, body)"
  by (induction cs) auto

lemma flatMapE_all_null:
  "\<forall>c \<in> set cs. f c = Inr (One Null) \<Longrightarrow> flatMapE f cs = Inr (map (\<lambda>c. Null) cs)"
  by (induction cs) auto

subsection \<open>Without a syntax error, only the script error is left\<close>

lemma child_no_syntax_error:
  "list_all (noSyntaxErrorAt P) (concat (map reached (filter keepChild cs))) \<Longrightarrow>
     c \<in> set (filter keepChild cs) \<Longrightarrow> list_all (noSyntaxErrorAt P) (reached c)"
  by (auto simp: list_all_iff)

lemma children_no_syntax_error:
  assumes "\<And>c. c \<in> set cs \<Longrightarrow> list_all (noSyntaxErrorAt P) (reached c) \<Longrightarrow> toDraw P c \<noteq> Inl SyntaxError"
    and "list_all (noSyntaxErrorAt P) (concat (map reached (filter keepChild cs)))"
  shows "flatMapE (toDraw P) (filter keepChild cs) \<noteq> Inl SyntaxError"
proof
  assume "flatMapE (toDraw P) (filter keepChild cs) = Inl SyntaxError"
  then obtain c where c: "c \<in> set (filter keepChild cs)" "toDraw P c = Inl SyntaxError"
    by (auto dest!: flatMapE_Inl)
  from child_no_syntax_error [OF assms(2) c(1)] assms(1) [of c] c show False by simp
qed

lemma toDraw_no_syntax_error:
  "list_all (noSyntaxErrorAt P) (reached t) \<Longrightarrow> toDraw P t \<noteq> Inl SyntaxError"
proof (induction t)
  case (Root cs)
  from Root.prems have "list_all (noSyntaxErrorAt P) (concat (map reached (filter keepChild cs)))"
    by simp
  from children_no_syntax_error [of cs P, OF Root.IH this]
  show ?case by (auto split: sum.splits)
next
  case (Element tagName props cs)
  from Element.prems have "list_all (noSyntaxErrorAt P) (concat (map reached (filter keepChild cs)))"
    and h: "tagName = ''script'' \<or> \<not> isl (parseProperties P props)"
    by simp_all
  from children_no_syntax_error [of cs P, OF Element.IH this(1)] h
  show ?case by (auto simp: handleElement_def split: sum.splits if_splits)
next
  case (View tagName props cs)
  from View.prems have "list_all (noSyntaxErrorAt P) (concat (map reached (filter keepChild cs)))"
    and h: "\<not> isl (parseProperties P props)"
    by simp_all
  from children_no_syntax_error [of cs P, OF View.IH this(1)] h
  show ?case by (auto simp: handleView_def split: sum.splits)
next
  case (Text v)
  then show ?case by (auto simp: isl_def)
qed simp_all

lemma noSyntaxErrorAt_classify:
  "std ''script'' \<Longrightarrow> noSyntaxErrorAt P n \<Longrightarrow> noSyntaxErrorAt P (classify std imps n)"
  by (cases n) (auto split: option.splits)

lemma script_element_fails: "\<exists>e. toDraw P (Element ''script'' props cs) = Inl e"
  by (cases "flatMapE (toDraw P) (filter keepChild cs)") (simp_all add: handleElement_def)

lemma load_no_syntax_error:
  assumes s: "std ''script''"
    and ex: "extractScripts Q children [] = Inr (kept, parsed)"
    and ok: "\<forall>k \<in> set kept. list_all (noSyntaxErrorAt P) (reached k)"
  shows "load P Q lc std children \<noteq> Inl SyntaxError"
proof -
  define imps where "imps = collectImports lc (ensureElImport parsed)"
  have "list_all (noSyntaxErrorAt P) (reached (Root kept))"
    using ok by (auto simp: list_all_iff)
  then have "list_all (noSyntaxErrorAt P) (reached (classify std imps (Root kept)))"
    unfolding reached_classify using s by (auto simp: list_all_iff noSyntaxErrorAt_classify)
  then have "toDraw P (classify std imps (Root kept)) \<noteq> Inl SyntaxError"
    by (rule toDraw_no_syntax_error)
  then show ?thesis using ex
    by (auto simp: load_def Let_def imps_def split: sum.splits lowered.splits
             simp del: classify.simps toDraw.simps)
qed

subsection \<open>Classifying twice\<close>

lemma classify_idem: "classify std imports (classify std imports t) = classify std imports t"
  by (induction t) (auto split: option.splits)

lemma classify_type:
  "nodeType (classify std imports t) = nodeType t \<or>
   nodeType t = ''element'' \<and> nodeType (classify std imports t) = ''view''"
  by (cases t) (auto split: option.splits)

subsection \<open>The registry\<close>

lemma registryOK_specifier: "registryOK lc m \<Longrightarrow> registryOK lc (registerSpecifier lc m sp)"
  by (auto simp: registryOK_def registerSpecifier_def Let_def)

lemma registryOK_specifiers: "registryOK lc m \<Longrightarrow> registryOK lc (foldl (registerSpecifier lc) m sps)"
  by (induction sps arbitrary: m) (simp_all add: registryOK_specifier)

lemma registryOK_node: "registryOK lc m \<Longrightarrow> registryOK lc (registerNode lc m n)"
  by (cases n) (simp_all add: registryOK_specifiers)

lemma registryOK_nodes: "registryOK lc m \<Longrightarrow> registryOK lc (foldl (registerNode lc) m body)"
  by (induction body arbitrary: m) (simp_all add: registryOK_node)

lemma collectImports_Some:
  "collectImports lc body k = Some v \<Longrightarrow> startsUpper v \<and> lc v = k"
proof -
  have "registryOK lc (collectImports lc body)"
    unfolding collectImports_def by (rule registryOK_nodes) (simp add: registryOK_def)
  then show "collectImports lc body k = Some v \<Longrightarrow> startsUpper v \<and> lc v = k"
    by (simp add: registryOK_def)
qed

lemma startsUpper_nonempty: "startsUpper v \<Longrightarrow> v \<noteq> []"
  by (auto simp: startsUpper_def)

subsection \<open>The lowering of a view\<close>

lemma toDraw_View:
  "toDraw P (View klass props cs) =
     (case flatMapE (toDraw P) (filter keepChild cs) of
        Inl e \<Rightarrow> Inl e
      | Inr children \<Rightarrow>
          (case parseProperties P props of
             Inl e \<Rightarrow> Inl e
           | Inr properties \<Rightarrow>
               Inr (One (NewExpression (Identifier klass) [eObj properties]))))"
  by (simp add: handleView_def split: sum.splits)

subsection \<open>The import of \<open>el\<close>, counted\<close>

lemma isImportFrom_ImportDeclaration [simp]:
  "isImportFrom src (ImportDeclaration specs source) = (source = src)"
  by (simp add: isImportFrom_def)

lemma find_none:
  "filter (isImportFrom ''overture/dom'') body = [] \<Longrightarrow> findOvertureDomImport body = None"
  by (induction body rule: findOvertureDomImport.induct) (auto split: if_splits)

lemma find_first:
  "filter (isImportFrom ''overture/dom'') pre = [] \<Longrightarrow>
     findOvertureDomImport (pre @ ImportDeclaration specs ''overture/dom'' # post) =
       Some (pre @ ImportDeclaration
                     (if list_ex isElSpecifier specs then specs else specs @ [elSpecifier])
                     ''overture/dom'' # post)"
  by (induction pre rule: findOvertureDomImport.induct) (auto split: if_splits)

lemma split_first_dom:
  assumes "filter (isImportFrom ''overture/dom'') body \<noteq> []"
  shows "\<exists>pre specs post. body = pre @ ImportDeclaration specs ''overture/dom'' # post \<and>
           filter (isImportFrom ''overture/dom'') pre = []"
proof -
  from assms have "\<exists>n \<in> set body. isImportFrom ''overture/dom'' n"
    by (auto simp: filter_empty_conv)
  from split_list_first_prop [OF this]
  obtain pre n post where b: "body = pre @ n # post" "isImportFrom ''overture/dom'' n"
    "\<forall>y \<in> set pre. \<not> isImportFrom ''overture/dom'' y" by blast
  from b(2) obtain specs where "n = ImportDeclaration specs ''overture/dom''"
    by (cases n) (auto simp: isImportFrom_def)
  with b show ?thesis by (auto simp: filter_empty_conv)
qed

lemma importsEl_dom: "importsEl n \<Longrightarrow> isImportFrom ''overture/dom'' n"
  by (cases n) simp_all

lemma no_dom_no_el: "filter (isImportFrom ''overture/dom'') xs = [] \<Longrightarrow> filter importsEl xs = []"
  by (auto simp: filter_empty_conv dest: importsEl_dom)

lemma el_added: "list_ex isElSpecifier (if list_ex isElSpecifier specs then specs else specs @ [elSpecifier])"
  by (simp add: elSpecifier_def)

lemma ensure_none:
  "filter (isImportFrom ''overture/dom'') body = [] \<Longrightarrow>
     ensureElImport body = ImportDeclaration [elSpecifier] ''overture/dom'' # body"
  by (simp add: ensureElImport_def find_none)

lemma ensure_first:
  "filter (isImportFrom ''overture/dom'') pre = [] \<Longrightarrow>
     ensureElImport (pre @ ImportDeclaration specs ''overture/dom'' # post) =
       pre @ ImportDeclaration
               (if list_ex isElSpecifier specs then specs else specs @ [elSpecifier])
               ''overture/dom'' # post"
  by (simp add: ensureElImport_def find_first)

lemma ensure_has_el: "list_ex importsEl (ensureElImport body)"
proof (cases "filter (isImportFrom ''overture/dom'') body = []")
  case True
  then show ?thesis by (simp add: ensure_none elSpecifier_def)
next
  case False
  from split_first_dom [OF this] obtain pre specs post
    where b: "body = pre @ ImportDeclaration specs ''overture/dom'' # post"
      "filter (isImportFrom ''overture/dom'') pre = []" by blast
  show ?thesis unfolding b(1) ensure_first [OF b(2)] by (simp add: elSpecifier_def)
qed

lemma ensure_other_sources:
  assumes "src \<noteq> ''overture/dom''"
  shows "filter (isImportFrom src) (ensureElImport body) = filter (isImportFrom src) body"
proof (cases "filter (isImportFrom ''overture/dom'') body = []")
  case True
  then show ?thesis using assms by (simp add: ensure_none)
next
  case False
  from split_first_dom [OF this] obtain pre specs post
    where b: "body = pre @ ImportDeclaration specs ''overture/dom'' # post"
      "filter (isImportFrom ''overture/dom'') pre = []" by blast
  show ?thesis unfolding b(1) ensure_first [OF b(2)] using assms by simp
qed

lemma ensure_dom_count:
  "length (filter (isImportFrom ''overture/dom'') (ensureElImport body)) =
     max 1 (length (filter (isImportFrom ''overture/dom'') body))"
proof (cases "filter (isImportFrom ''overture/dom'') body = []")
  case True
  then show ?thesis by (simp add: ensure_none)
next
  case False
  from split_first_dom [OF this] obtain pre specs post
    where b: "body = pre @ ImportDeclaration specs ''overture/dom'' # post"
      "filter (isImportFrom ''overture/dom'') pre = []" by blast
  show ?thesis unfolding b(1) ensure_first [OF b(2)] by simp
qed

lemma ensure_el_once:
  assumes "length (filter (isImportFrom ''overture/dom'') body) \<le> 1"
  shows "length (filter importsEl (ensureElImport body)) = 1"
proof (cases "filter (isImportFrom ''overture/dom'') body = []")
  case True
  then show ?thesis by (simp add: ensure_none no_dom_no_el elSpecifier_def)
next
  case False
  from split_first_dom [OF this] obtain pre specs post
    where b: "body = pre @ ImportDeclaration specs ''overture/dom'' # post"
      "filter (isImportFrom ''overture/dom'') pre = []" by blast
  from assms b have "filter (isImportFrom ''overture/dom'') post = []" by simp
  then have "filter importsEl post = []" by (rule no_dom_no_el)
  moreover have "filter importsEl pre = []" using b(2) by (rule no_dom_no_el)
  moreover define specs' where
    "specs' = (if list_ex isElSpecifier specs then specs else specs @ [elSpecifier])"
  moreover have "list_ex isElSpecifier specs'" unfolding specs'_def by (rule el_added)
  ultimately show ?thesis unfolding b(1) ensure_first [OF b(2), folded specs'_def] by simp
qed

text \<open>
  \<open>find\<close> stops at the first import from \<open>'overture/dom'\<close>: when that one has no
  specifier of \<open>el\<close> and a later one has, \<open>el\<close> is pushed all the same, and two
  statements import it.
\<close>

lemma ensure_looks_at_first_only:
  "ensureElImport
     [ImportDeclaration [ImportDefaultSpecifier ''Dom''] ''overture/dom'',
      ImportDeclaration [elSpecifier] ''overture/dom'' :: string estree] =
     [ImportDeclaration [ImportDefaultSpecifier ''Dom'', elSpecifier] ''overture/dom'',
      ImportDeclaration [elSpecifier] ''overture/dom''] \<and>
   length (filter importsEl
     (ensureElImport
        [ImportDeclaration [ImportDefaultSpecifier ''Dom''] ''overture/dom'',
         ImportDeclaration [elSpecifier] ''overture/dom'' :: string estree])) = 2"
  by code_simp

text \<open>
  \<open>e.obj\<close> takes an object that has the keys \<open>start\<close> and \<open>end\<close> for a source
  location: a node with attributes of both names is lowered with an object literal
  without properties.
\<close>

lemma start_end_attributes_dropped:
  "toDraw exprOfText (View ''Foo'' [(''start'', VStr ''1''), (''end'', VStr ''2'')] []) =
     Inr (One (NewExpression (Identifier ''Foo'') [ObjectExpression []])) \<and>
   toDraw exprOfText (Element ''ol'' [(''start'', VNum (Number ''3'')), (''end'', VStr ''x'')] []) =
     Inr (One (CallExpression (Identifier ''el'')
            [Literal (VStr ''ol''), ObjectExpression [], ArrayExpression []]))"
  by code_simp

section \<open>Claims\<close>

text \<open>
  C1. For every input string the splitter takes only the first balanced span, found by
  the brace-depth counter from left to right: \<open>findExpression\<close> returns \<open>(st, en)\<close>
  exactly when \<open>st\<close> and \<open>en\<close> delimit the first span, and \<open>null\<close> exactly when there is
  none. With a span, the string is the prefix, the opening brace, the text strictly
  inside, the closing brace and the suffix, and the segments are, in order, the prefix as
  a literal only if non-empty, what the parser gives for the inside (or its syntax error),
  and the suffix as a literal only if non-empty. So \<open>a{1+1}b\<close> gives the literal \<open>a\<close>,
  the expression of \<open>1+1\<close> and the literal \<open>b\<close>; \<open>{x}\<close> gives the expression of \<open>x\<close>
  alone; \<open>plain\<close> gives the one literal \<open>plain\<close>.
\<close>

theorem C1_first_span_three_segments:
  "(findExpression (VStr s) = Some (st, en) \<longleftrightarrow> firstSpan s st en) \<and>
   (findExpression (VStr s) = None \<longleftrightarrow> (\<forall>st en. \<not> firstSpan s st en)) \<and>
   (firstSpan s st en \<longrightarrow>
      s = take st s @ ''{'' @ take (en - Suc st) (drop (Suc st) s) @ ''}'' @ drop (Suc en) s \<and>
      handleExpressions P (VStr s) =
        (case P (VStr (take (en - Suc st) (drop (Suc st) s))) of
           None \<Rightarrow> Inl SyntaxError
         | Some x \<Rightarrow>
             Inr (Many ((if take st s = [] then [] else [Literal (VStr (take st s))])
                        @ [Parsed x]
                        @ (if drop (Suc en) s = [] then [] else [Literal (VStr (drop (Suc en) s))]))))) \<and>
   ((\<forall>st en. \<not> firstSpan s st en) \<longrightarrow> handleExpressions P (VStr s) = Inr (One (Literal (VStr s)))) \<and>
   handleExpressions P (VStr ''a{1+1}b'') =
     (case P (VStr ''1+1'') of
        None \<Rightarrow> Inl SyntaxError
      | Some x \<Rightarrow> Inr (Many [Literal (VStr ''a''), Parsed x, Literal (VStr ''b'')])) \<and>
   handleExpressions P (VStr ''{x}'') =
     (case P (VStr ''x'') of None \<Rightarrow> Inl SyntaxError | Some x \<Rightarrow> Inr (Many [Parsed x])) \<and>
   handleExpressions P (VStr ''plain'') = Inr (One (Literal (VStr ''plain'')))"
proof (intro conjI impI)
  show "findExpression (VStr s) = Some (st, en) \<longleftrightarrow> firstSpan s st en"
    by (simp add: findChars_Some_iff)
  show "findExpression (VStr s) = None \<longleftrightarrow> (\<forall>st en. \<not> firstSpan s st en)"
    by (simp add: findChars_None_no_span)
  show "s = take st s @ ''{'' @ take (en - Suc st) (drop (Suc st) s) @ ''}'' @ drop (Suc en) s"
    if "firstSpan s st en" using that by (rule firstSpan_parts)
  show "handleExpressions P (VStr s) =
        (case P (VStr (take (en - Suc st) (drop (Suc st) s))) of
           None \<Rightarrow> Inl SyntaxError
         | Some x \<Rightarrow>
             Inr (Many ((if take st s = [] then [] else [Literal (VStr (take st s))])
                        @ [Parsed x]
                        @ (if drop (Suc en) s = [] then [] else [Literal (VStr (drop (Suc en) s))]))))"
    if "firstSpan s st en" using that by (rule handleExpressions_span)
  show "handleExpressions P (VStr s) = Inr (One (Literal (VStr s)))"
    if "\<forall>st en. \<not> firstSpan s st en"
    using that by (simp add: handleExpressions_no_span findChars_None_no_span)
  have a: "findChars ''a{1+1}b'' = Some (1, 5)" by code_simp
  show "handleExpressions P (VStr ''a{1+1}b'') =
     (case P (VStr ''1+1'') of
        None \<Rightarrow> Inl SyntaxError
      | Some x \<Rightarrow> Inr (Many [Literal (VStr ''a''), Parsed x, Literal (VStr ''b'')]))"
    by (simp add: handleExpressions_def a split: option.splits)
  have b: "findChars ''{x}'' = Some (0, 2)" by code_simp
  show "handleExpressions P (VStr ''{x}'') =
     (case P (VStr ''x'') of None \<Rightarrow> Inl SyntaxError | Some x \<Rightarrow> Inr (Many [Parsed x]))"
    by (simp add: handleExpressions_def b split: option.splits)
  have c: "findChars ''plain'' = None" by code_simp
  show "handleExpressions P (VStr ''plain'') = Inr (One (Literal (VStr ''plain'')))"
    by (simp add: handleExpressions_def c)
qed

theorem C1_witness:
  "firstSpan ''a{1+1}b'' 1 5 \<and>
   findExpression (VStr ''a{1+1}b'') = Some (1, 5) \<and>
   handleExpressions exprOfText (VStr ''a{1+1}b'') =
     Inr (Many [Literal (VStr ''a''), Parsed ''1+1'', Literal (VStr ''b'')]) \<and>
   findExpression (VStr ''plain'') = None \<and>
   handleExpressions exprOfText (VStr ''plain'') = Inr (One (Literal (VStr ''plain'')))"
proof -
  have h: "firstSpan ''a{1+1}b'' 1 5" by code_simp
  have t: "take (5 - Suc 1) (drop (Suc 1) ''a{1+1}b'') = ''1+1''" by code_simp
  have p: "take 1 ''a{1+1}b'' = ''a''" by code_simp
  have q: "drop (Suc 5) ''a{1+1}b'' = ''b''" by code_simp
  have a: "findExpression (VStr ''a{1+1}b'') = Some (1, 5) \<and>
     handleExpressions exprOfText (VStr ''a{1+1}b'') =
       Inr (Many [Literal (VStr ''a''), Parsed ''1+1'', Literal (VStr ''b'')])"
    using C1_first_span_three_segments [of "''a{1+1}b''" 1 5 exprOfText] h
    unfolding t p q by (simp add: exprOfText_def)
  have n: "findExpression (VStr ''plain'') = None" by code_simp
  then have ns: "\<forall>st en. \<not> firstSpan ''plain'' st en"
    using C1_first_span_three_segments [of "''plain''" 0 0 exprOfText] by blast
  have b: "handleExpressions exprOfText (VStr ''plain'') = Inr (One (Literal (VStr ''plain'')))"
    using C1_first_span_three_segments [of "''plain''" 0 0 exprOfText] ns by blast
  show ?thesis using h a n b by blast
qed

text \<open>
  C2, as the code has it. After the step the module has an import from
  \<open>'overture/dom'\<close> with a specifier of \<open>el\<close>. If the module has an import from that
  source, \<open>el\<close> is pushed to the specifiers of the first such import, and only if none
  of its specifiers imports \<open>el\<close>; otherwise a new import of \<open>el\<close> is put at the
  very front. Nothing else changes: the step merges no imports, so every other source
  keeps the import statements the scripts declared, as many as they are, and
  \<open>'overture/dom'\<close> keeps its own or gets the one. When the scripts declared at most one
  import from \<open>'overture/dom'\<close>, exactly one statement of the module imports \<open>el\<close>
  from it.
\<close>

theorem C2_el_import_ensured:
  "(filter (isImportFrom ''overture/dom'') body = [] \<longrightarrow>
      ensureElImport body = ImportDeclaration [elSpecifier] ''overture/dom'' # body) \<and>
   (filter (isImportFrom ''overture/dom'') pre = [] \<longrightarrow>
      ensureElImport (pre @ ImportDeclaration specs ''overture/dom'' # post) =
        pre @ ImportDeclaration
                (if list_ex isElSpecifier specs then specs else specs @ [elSpecifier])
                ''overture/dom'' # post) \<and>
   list_ex importsEl (ensureElImport body) \<and>
   (src \<noteq> ''overture/dom'' \<longrightarrow>
      filter (isImportFrom src) (ensureElImport body) = filter (isImportFrom src) body) \<and>
   length (filter (isImportFrom ''overture/dom'') (ensureElImport body)) =
     max 1 (length (filter (isImportFrom ''overture/dom'') body)) \<and>
   (length (filter (isImportFrom ''overture/dom'') body) \<le> 1 \<longrightarrow>
      length (filter importsEl (ensureElImport body)) = 1)"
  using ensure_none [of body] ensure_first [of pre specs post] ensure_has_el [of body]
    ensure_other_sources [of src body] ensure_dom_count [of body] ensure_el_once [of body]
  by blast

theorem C2_witness:
  "ensureElImport
     [Parsed ''let a = 1'', ImportDeclaration [ImportDefaultSpecifier ''Dom''] ''overture/dom'',
      ImportDeclaration [ImportDefaultSpecifier ''Foo''] ''./Foo''] =
     [Parsed ''let a = 1'',
      ImportDeclaration [ImportDefaultSpecifier ''Dom'', elSpecifier] ''overture/dom'',
      ImportDeclaration [ImportDefaultSpecifier ''Foo''] ''./Foo''] \<and>
   length (filter importsEl
     (ensureElImport
        [Parsed ''let a = 1'', ImportDeclaration [ImportDefaultSpecifier ''Dom''] ''overture/dom'',
         ImportDeclaration [ImportDefaultSpecifier ''Foo''] ''./Foo''])) = 1 \<and>
   filter (isImportFrom ''./Foo'')
     (ensureElImport
        [Parsed ''let a = 1'', ImportDeclaration [ImportDefaultSpecifier ''Dom''] ''overture/dom'',
         ImportDeclaration [ImportDefaultSpecifier ''Foo''] ''./Foo'']) =
     [ImportDeclaration [ImportDefaultSpecifier ''Foo''] ''./Foo''] \<and>
   ensureElImport [ImportDeclaration [ImportDefaultSpecifier ''Foo''] ''./Foo'', Parsed ''let a = 1''] =
     [ImportDeclaration [elSpecifier] ''overture/dom'',
      ImportDeclaration [ImportDefaultSpecifier ''Foo''] ''./Foo'', Parsed ''let a = 1'']"
proof -
  let ?body = "[Parsed ''let a = 1'', ImportDeclaration [ImportDefaultSpecifier ''Dom''] ''overture/dom'',
      ImportDeclaration [ImportDefaultSpecifier ''Foo''] ''./Foo''] :: string estree list"
  let ?plain = "[ImportDeclaration [ImportDefaultSpecifier ''Foo''] ''./Foo'', Parsed ''let a = 1'']
      :: string estree list"
  have p: "filter (isImportFrom ''overture/dom'') [Parsed ''let a = 1'' :: string estree] = []"
    by (simp add: isImportFrom_def)
  have c: "length (filter (isImportFrom ''overture/dom'') ?body) \<le> 1"
    by (simp add: isImportFrom_def)
  have s: "''./Foo'' \<noteq> ''overture/dom''" by simp
  have a: "ensureElImport ?body =
     [Parsed ''let a = 1'',
      ImportDeclaration [ImportDefaultSpecifier ''Dom'', elSpecifier] ''overture/dom'',
      ImportDeclaration [ImportDefaultSpecifier ''Foo''] ''./Foo''] \<and>
   length (filter importsEl (ensureElImport ?body)) = 1 \<and>
   filter (isImportFrom ''./Foo'') (ensureElImport ?body) =
     [ImportDeclaration [ImportDefaultSpecifier ''Foo''] ''./Foo'']"
    using C2_el_import_ensured [where body = ?body and pre = "[Parsed ''let a = 1'']"
      and specs = "[ImportDefaultSpecifier ''Dom'']"
      and post = "[ImportDeclaration [ImportDefaultSpecifier ''Foo''] ''./Foo'']"
      and src = "''./Foo''"] p c s
    by (simp add: isImportFrom_def elSpecifier_def)
  have e: "filter (isImportFrom ''overture/dom'') ?plain = []" by (simp add: isImportFrom_def)
  have b: "ensureElImport ?plain = ImportDeclaration [elSpecifier] ''overture/dom'' # ?plain"
    using C2_el_import_ensured [where body = ?plain] e by blast
  show ?thesis using a b by blast
qed

text \<open>
  C2, as the claim states it, fails: two script blocks that each import from
  \<open>'./views'\<close> leave two import statements for that one source in the module.
\<close>

theorem C2_counterexample:
  "ensureElImport
     [ImportDeclaration [ImportDefaultSpecifier ''A''] ''./views'',
      ImportDeclaration [ImportSpecifier (IdentifierName ''B'') ''B''] ''./views'' :: string estree] =
     [ImportDeclaration [elSpecifier] ''overture/dom'',
      ImportDeclaration [ImportDefaultSpecifier ''A''] ''./views'',
      ImportDeclaration [ImportSpecifier (IdentifierName ''B'') ''B''] ''./views''] \<and>
   length (filter (isImportFrom ''./views'')
     (ensureElImport
        [ImportDeclaration [ImportDefaultSpecifier ''A''] ''./views'',
         ImportDeclaration [ImportSpecifier (IdentifierName ''B'') ''B''] ''./views''
           :: string estree])) = 2"
  by code_simp

text \<open>
  C3, as the code has it. A text node whose value has a first span lowers to the array of
  its segments themselves, in order: the prefix as a literal if non-empty, the parsed
  expression, the suffix as a literal if non-empty. No concatenation call is built; the
  parent splices the segments, in order, into its array of children, between what its
  other children lower to. A text node whose value has no span lowers to one string
  literal.
\<close>

theorem C3_text_segments_spliced:
  "(firstSpan v st en \<and> P (VStr (take (en - Suc st) (drop (Suc st) v))) = Some x \<and>
    segments = (if take st v = [] then [] else [Literal (VStr (take st v))])
               @ [Parsed x]
               @ (if drop (Suc en) v = [] then [] else [Literal (VStr (drop (Suc en) v))]) \<longrightarrow>
      toDraw P (Text v) = Inr (Many segments) \<and>
      toDraw P (Text v) \<noteq> Inr (One (joinCall segments)) \<and>
      flatMapE (toDraw P) (filter keepChild (before @ [Text v] @ after)) =
        (case flatMapE (toDraw P) (filter keepChild before) of
           Inl e \<Rightarrow> Inl e
         | Inr rb \<Rightarrow>
             (case flatMapE (toDraw P) (filter keepChild after) of
                Inl e \<Rightarrow> Inl e
              | Inr ra \<Rightarrow> Inr (rb @ segments @ ra))) \<and>
      toDraw P (Element ''div'' [] [Text v]) =
        Inr (One (CallExpression (Identifier ''el'')
               [Literal (VStr ''div''), ObjectExpression [], ArrayExpression segments]))) \<and>
   ((\<forall>st en. \<not> firstSpan v st en) \<longrightarrow> toDraw P (Text v) = Inr (One (Literal (VStr v))))"
proof (intro conjI impI)
  assume h: "firstSpan v st en \<and> P (VStr (take (en - Suc st) (drop (Suc st) v))) = Some x \<and>
    segments = (if take st v = [] then [] else [Literal (VStr (take st v))])
               @ [Parsed x]
               @ (if drop (Suc en) v = [] then [] else [Literal (VStr (drop (Suc en) v))])"
  then have f: "firstSpan v st en" by simp
  from handleExpressions_span [OF f, of P] h
  have he: "handleExpressions P (VStr v) = Inr (Many segments)" by simp
  then show t: "toDraw P (Text v) = Inr (Many segments)" by simp
  then show "toDraw P (Text v) \<noteq> Inr (One (joinCall segments))" by simp
  from flatMapE_middle [OF span_text_kept [OF f] t, of before after, unfolded spliced.simps]
  show "flatMapE (toDraw P) (filter keepChild (before @ [Text v] @ after)) =
        (case flatMapE (toDraw P) (filter keepChild before) of
           Inl e \<Rightarrow> Inl e
         | Inr rb \<Rightarrow>
             (case flatMapE (toDraw P) (filter keepChild after) of
                Inl e \<Rightarrow> Inl e
              | Inr ra \<Rightarrow> Inr (rb @ segments @ ra)))" .
  have "keepChild (Text v)" using f by (rule span_text_kept)
  then show "toDraw P (Element ''div'' [] [Text v]) =
        Inr (One (CallExpression (Identifier ''el'')
               [Literal (VStr ''div''), ObjectExpression [], ArrayExpression segments]))"
    using he by (simp add: handleElement_def parseProperties_def objectEntries_def eObj_def)
next
  assume "\<forall>st en. \<not> firstSpan v st en"
  then have "findChars v = None" by (simp add: findChars_None_no_span)
  then show "toDraw P (Text v) = Inr (One (Literal (VStr v)))"
    by (simp add: handleExpressions_no_span)
qed

theorem C3_witness:
  "firstSpan ''a{x}b'' 1 3 \<and> exprOfText (VStr ''x'') = Some ''x'' \<and>
   toDraw exprOfText (Text ''a{x}b'') =
     Inr (Many [Literal (VStr ''a''), Parsed ''x'', Literal (VStr ''b'')]) \<and>
   toDraw exprOfText (Element ''div'' [] [Text ''a{x}b'']) =
     Inr (One (CallExpression (Identifier ''el'')
            [Literal (VStr ''div''), ObjectExpression [],
             ArrayExpression [Literal (VStr ''a''), Parsed ''x'', Literal (VStr ''b'')]])) \<and>
   findExpression (VStr ''plain'') = None \<and>
   toDraw exprOfText (Text ''plain'') = Inr (One (Literal (VStr ''plain'')))"
proof -
  have f: "firstSpan ''a{x}b'' 1 3" by code_simp
  have i: "take (3 - Suc 1) (drop (Suc 1) ''a{x}b'') = ''x''" by code_simp
  have p: "take 1 ''a{x}b'' = ''a''" by code_simp
  have q: "drop (Suc 3) ''a{x}b'' = ''b''" by code_simp
  have x: "exprOfText (VStr ''x'') = Some ''x''" by (simp add: exprOfText_def)
  have a: "toDraw exprOfText (Text ''a{x}b'') =
     Inr (Many [Literal (VStr ''a''), Parsed ''x'', Literal (VStr ''b'')]) \<and>
   toDraw exprOfText (Element ''div'' [] [Text ''a{x}b'']) =
     Inr (One (CallExpression (Identifier ''el'')
            [Literal (VStr ''div''), ObjectExpression [],
             ArrayExpression [Literal (VStr ''a''), Parsed ''x'', Literal (VStr ''b'')]]))"
    using C3_text_segments_spliced [where v = "''a{x}b''" and st = 1 and en = 3 and P = exprOfText
      and x = "''x''" and segments = "[Literal (VStr ''a''), Parsed ''x'', Literal (VStr ''b'')]"]
      f x
    unfolding i p q by (simp del: toDraw.simps)
  have n: "findExpression (VStr ''plain'') = None" by code_simp
  then have ns: "\<forall>st en. \<not> firstSpan ''plain'' st en"
    by (simp add: findChars_None_no_span)
  have b: "toDraw exprOfText (Text ''plain'') = Inr (One (Literal (VStr ''plain'')))"
    using C3_text_segments_spliced [where v = "''plain''" and P = exprOfText] ns by blast
  show ?thesis using f x a n b by blast
qed

text \<open>
  C3, as the claim states it, fails: the text \<open>a{x}b\<close> lowers to the array of its three
  segments, which is not the concatenation call that the attribute of the same value
  lowers to.
\<close>

theorem C3_counterexample:
  "toDraw exprOfText (Text ''a{x}b'') =
     Inr (Many [Literal (VStr ''a''), Parsed ''x'', Literal (VStr ''b'')]) \<and>
   lowerProperty exprOfText ''title'' (VStr ''a{x}b'') =
     Inr (joinCall [Literal (VStr ''a''), Parsed ''x'', Literal (VStr ''b'')]) \<and>
   toDraw exprOfText (Text ''a{x}b'') \<noteq>
     Inr (One (joinCall [Literal (VStr ''a''), Parsed ''x'', Literal (VStr ''b'')]))"
proof -
  have f: "findChars ''a{x}b'' = Some (1, 3)" by code_simp
  have h: "handleExpressions exprOfText (VStr ''a{x}b'') =
     Inr (Many [Literal (VStr ''a''), Parsed ''x'', Literal (VStr ''b'')])"
    by (simp add: handleExpressions_def f exprOfText_def)
  show ?thesis using h by (simp add: lowerProperty_VStr)
qed

text \<open>
  C4, as the code has it. An element whose tag name is not a standard tag and is itself,
  as it stands in the tree, a key of the registry becomes a view whose tag name is the
  registered identifier; the classifier does no case normalization of the tag name, and
  the keys being the lower-cased identifiers, the tag name is then the lower-cased form
  of the identifier, which starts with a capital (\<open>toLowerCase\<close> is the language's own,
  whatever it does to each character). Such a view lowers, when the lowering of its
  children and of its attributes raises nothing, to a \<open>new\<close> of that identifier with one
  argument; what the children lowered to is left out; it never lowers to a call of
  \<open>el\<close>. The argument is the object literal of the lowered attributes, in the order of
  their listing, when the attributes are not named both \<open>start\<close> and \<open>end\<close>. With
  \<open>Foo\<close> imported, lower-cased to \<open>foo\<close>, and \<open>foo\<close> no standard tag,
  \<open><foo attr="1">\<close> becomes \<open>new Foo({attr: "1"})\<close>.
\<close>

theorem C4_registered_tag_is_component:
  assumes "\<not> standardTags tagName" and "collectImports toLowerCase body tagName = Some klass"
  shows "classify standardTags (collectImports toLowerCase body) (Element tagName props cs) =
       View klass props (map (classify standardTags (collectImports toLowerCase body)) cs) \<and>
     toLowerCase klass = tagName \<and> startsUpper klass \<and>
     toDraw P (View klass props cs') \<noteq> Inr (One (CallExpression (Identifier ''el'') args)) \<and>
     (toDraw P (View klass props cs') = Inr r \<longrightarrow>
        (\<exists>argument. r = One (NewExpression (Identifier klass) [argument]))) \<and>
     (\<not> (''start'' \<in> fst ` set props \<and> ''end'' \<in> fst ` set props) \<longrightarrow>
        toDraw P (View klass props cs') =
          (case flatMapE (toDraw P) (filter keepChild cs') of
             Inl e \<Rightarrow> Inl e
           | Inr children \<Rightarrow>
               (case parseProperties P props of
                  Inl e \<Rightarrow> Inl e
                | Inr properties \<Rightarrow>
                    Inr (One (NewExpression (Identifier klass) [ObjectExpression properties]))))) \<and>
     (\<not> standardTags ''foo'' \<and> toLowerCase ''Foo'' = ''foo'' \<longrightarrow>
        classify standardTags
          (collectImports toLowerCase
             [ImportDeclaration [ImportDefaultSpecifier ''Foo''] source :: 'x estree])
          (Element ''foo'' [(''attr'', VStr ''1'')] []) = View ''Foo'' [(''attr'', VStr ''1'')] [] \<and>
        toDraw P (View ''Foo'' [(''attr'', VStr ''1'')] []) =
          Inr (One (NewExpression (Identifier ''Foo'')
                 [ObjectExpression [(''attr'', (Literal (VStr ''1'') :: 'x estree))]])))"
proof -
  from collectImports_Some [OF assms(2)] have k: "startsUpper klass" "toLowerCase klass = tagName"
    by simp_all
  then have ne: "klass \<noteq> []" by (simp add: startsUpper_nonempty)
  have c: "classify standardTags (collectImports toLowerCase body) (Element tagName props cs) =
       View klass props (map (classify standardTags (collectImports toLowerCase body)) cs)"
    using assms ne by simp
  have n: "toDraw P (View klass props cs') \<noteq> Inr (One (CallExpression (Identifier ''el'') args))"
    unfolding toDraw_View by (simp split: sum.splits)
  have a: "\<exists>argument. r = One (NewExpression (Identifier klass) [argument])"
    if "toDraw P (View klass props cs') = Inr r"
    using that unfolding toDraw_View by (auto split: sum.splits)
  have o: "toDraw P (View klass props cs') =
          (case flatMapE (toDraw P) (filter keepChild cs') of
             Inl e \<Rightarrow> Inl e
           | Inr children \<Rightarrow>
               (case parseProperties P props of
                  Inl e \<Rightarrow> Inl e
                | Inr properties \<Rightarrow>
                    Inr (One (NewExpression (Identifier klass) [ObjectExpression properties]))))"
    if h: "\<not> (''start'' \<in> fst ` set props \<and> ''end'' \<in> fst ` set props)"
  proof -
    have "eObj properties = ObjectExpression properties"
      if "parseProperties P props = Inr properties" for properties :: "(string \<times> 'x estree) list"
      using parseProperties_keys [OF that] h unfolding eObj_def by auto
    then show ?thesis unfolding toDraw_View by (simp split: sum.splits)
  qed
  have one: "findChars ''1'' = None" by (simp add: findChars_def)
  have p: "parseProperties P [(''attr'', VStr ''1'')] = Inr [(''attr'', Literal (VStr ''1''))]"
    by (simp add: parseProperties_def objectEntries_def isArrayIndex_def isDigit_def setProperty_def
          lowerProperty_VStr handleExpressions_no_span [OF one])
  have ex: "toDraw P (View ''Foo'' [(''attr'', VStr ''1'')] []) =
          Inr (One (NewExpression (Identifier ''Foo'')
                 [ObjectExpression [(''attr'', Literal (VStr ''1''))]]))"
    unfolding toDraw_View by (simp add: p eObj_def)
  have foo: "classify standardTags
          (collectImports toLowerCase
             [ImportDeclaration [ImportDefaultSpecifier ''Foo''] source :: 'x estree])
          (Element ''foo'' [(''attr'', VStr ''1'')] []) = View ''Foo'' [(''attr'', VStr ''1'')] []"
    if f: "\<not> standardTags ''foo'' \<and> toLowerCase ''Foo'' = ''foo''"
  proof -
    have u: "startsUpper ''Foo''" by code_simp
    have "collectImports toLowerCase
        [ImportDeclaration [ImportDefaultSpecifier ''Foo''] source :: 'x estree] ''foo'' = Some ''Foo''"
      using f by (simp add: collectImports_def registerSpecifier_def Let_def u)
    with f show ?thesis by simp
  qed
  show ?thesis
    using c k n a o foo ex by blast
qed

theorem C4_witness:
  "\<not> someStandardTags ''foo'' \<and> lowerASCII ''Foo'' = ''foo'' \<and>
   collectImports lowerASCII
     [ImportDeclaration [ImportDefaultSpecifier ''Foo''] ''./Foo'' :: string estree] ''foo''
     = Some ''Foo'' \<and>
   classify someStandardTags
     (collectImports lowerASCII
        [ImportDeclaration [ImportDefaultSpecifier ''Foo''] ''./Foo'' :: string estree])
     (Element ''foo'' [(''attr'', VStr ''1'')] [Text ''x'']) =
     View ''Foo'' [(''attr'', VStr ''1'')] [Text ''x''] \<and>
   ''start'' \<notin> fst ` set [(''attr'', VStr ''1'')] \<and>
   flatMapE (toDraw exprOfText) (filter keepChild [Text ''x'']) = Inr [Literal (VStr ''x'')] \<and>
   parseProperties exprOfText [(''attr'', VStr ''1'')] = Inr [(''attr'', Literal (VStr ''1''))] \<and>
   toDraw exprOfText (View ''Foo'' [(''attr'', VStr ''1'')] [Text ''x'']) =
     Inr (One (NewExpression (Identifier ''Foo'')
            [ObjectExpression [(''attr'', Literal (VStr ''1''))]]))"
proof -
  have s: "\<not> someStandardTags ''foo''" by (simp add: someStandardTags_def)
  have l: "lowerASCII ''Foo'' = ''foo''" by code_simp
  have i: "collectImports lowerASCII
     [ImportDeclaration [ImportDefaultSpecifier ''Foo''] ''./Foo'' :: string estree] ''foo''
     = Some ''Foo''" by code_simp
  have h: "''start'' \<notin> fst ` set [(''attr'', VStr ''1'')]" by simp
  have f: "flatMapE (toDraw exprOfText) (filter keepChild [Text ''x'']) = Inr [Literal (VStr ''x'')]"
    by code_simp
  have p: "parseProperties exprOfText [(''attr'', VStr ''1'')] = Inr [(''attr'', Literal (VStr ''1''))]"
    by code_simp
  note t = C4_registered_tag_is_component [where standardTags = someStandardTags
      and toLowerCase = lowerASCII and tagName = "''foo''"
      and body = "[ImportDeclaration [ImportDefaultSpecifier ''Foo''] ''./Foo'' :: string estree]"
      and klass = "''Foo''" and props = "[(''attr'', VStr ''1'')]" and cs = "[Text ''x'']"
      and cs' = "[Text ''x'']" and P = exprOfText, OF s i]
  from t h have "toDraw exprOfText (View ''Foo'' [(''attr'', VStr ''1'')] [Text ''x'']) =
          (case flatMapE (toDraw exprOfText) (filter keepChild [Text ''x'']) of
             Inl e \<Rightarrow> Inl e
           | Inr children \<Rightarrow>
               (case parseProperties exprOfText [(''attr'', VStr ''1'')] of
                  Inl e \<Rightarrow> Inl e
                | Inr properties \<Rightarrow>
                    Inr (One (NewExpression (Identifier ''Foo'') [ObjectExpression properties]))))"
    by blast
  then have d: "toDraw exprOfText (View ''Foo'' [(''attr'', VStr ''1'')] [Text ''x'']) =
     Inr (One (NewExpression (Identifier ''Foo'')
            [ObjectExpression [(''attr'', Literal (VStr ''1''))]]))"
    unfolding f p by simp
  from t have "classify someStandardTags
     (collectImports lowerASCII
        [ImportDeclaration [ImportDefaultSpecifier ''Foo''] ''./Foo'' :: string estree])
     (Element ''foo'' [(''attr'', VStr ''1'')] [Text ''x'']) =
     View ''Foo'' [(''attr'', VStr ''1'')] (map (classify someStandardTags
     (collectImports lowerASCII
        [ImportDeclaration [ImportDefaultSpecifier ''Foo''] ''./Foo'' :: string estree])) [Text ''x''])"
    by blast
  then have c: "classify someStandardTags
     (collectImports lowerASCII
        [ImportDeclaration [ImportDefaultSpecifier ''Foo''] ''./Foo'' :: string estree])
     (Element ''foo'' [(''attr'', VStr ''1'')] [Text ''x'']) =
     View ''Foo'' [(''attr'', VStr ''1'')] [Text ''x'']"
    by (simp del: classify.simps(1))
  show ?thesis using s l i c h f p d by blast
qed

text \<open>
  C4, as the claim states it, fails: the classifier looks the tag name up as it is. The
  SVG tag \<open>foreignObject\<close> is no standard tag and its lower-cased form is a key of the
  registry when \<open>ForeignObject\<close> is imported, yet the element stays an element and is
  lowered to a call of \<open>el\<close>.
\<close>

theorem C4_counterexample:
  "\<not> someStandardTags ''foreignObject'' \<and>
   collectImports lowerASCII
     [ImportDeclaration [ImportSpecifier (IdentifierName ''ForeignObject'') ''ForeignObject'']
        ''./views'' :: string estree]
     (lowerASCII ''foreignObject'') = Some ''ForeignObject'' \<and>
   classify someStandardTags
     (collectImports lowerASCII
        [ImportDeclaration [ImportSpecifier (IdentifierName ''ForeignObject'') ''ForeignObject'']
           ''./views'' :: string estree])
     (Root [Element ''svg'' [] [Element ''foreignObject'' [(''attr'', VStr ''1'')] []]]) =
     Root [Element ''svg'' [] [Element ''foreignObject'' [(''attr'', VStr ''1'')] []]] \<and>
   toDraw exprOfText (Element ''svg'' [] [Element ''foreignObject'' [(''attr'', VStr ''1'')] []]) =
     Inr (One (CallExpression (Identifier ''el'')
            [Literal (VStr ''svg''), ObjectExpression [],
             ArrayExpression
               [CallExpression (Identifier ''el'')
                  [Literal (VStr ''foreignObject''),
                   ObjectExpression [(''attr'', Literal (VStr ''1''))],
                   ArrayExpression []]]]))"
  by code_simp

text \<open>
  C5, as the code has it. \<open>script\<close> being a standard tag, a document in which a script
  element is reached by the synthesizer (one anywhere below a top-level node that is not
  itself a script element; extraction keeps exactly the top-level nodes that are not
  script elements and removes the others with all their children) compiles to no output:
  \<open>load\<close> ends in an error. The error is the one for nested scripts when the extracted
  scripts parse and no text or attribute that the synthesizer reaches raises a syntax
  error; it is a syntax error when an extracted script does not parse. The children of
  the script element are lowered before its handler throws, so a syntax error in its own
  text can be the error raised.
\<close>

theorem C5_reached_script_is_fatal:
  assumes "standardTags ''script''"
    and "c \<in> set children" and "tagNameOf c \<noteq> Some ''script''"
    and "Element ''script'' props cs \<in> set (reached c)"
  shows "(\<exists>e. load P parse toLowerCase standardTags children = Inl e) \<and>
     (extractScripts parse children [] = Inr (kept, parsed) \<longrightarrow>
        kept = filter (\<lambda>n. tagNameOf n \<noteq> Some ''script'') children) \<and>
     (extractScripts parse children [] = Inr (kept, parsed) \<and>
      (\<forall>k \<in> set kept. list_all (noSyntaxErrorAt P) (reached k)) \<longrightarrow>
        load P parse toLowerCase standardTags children = Inl NestedScript) \<and>
     (extractScripts parse children [] = Inl err \<longrightarrow>
        load P parse toLowerCase standardTags children = Inl SyntaxError)"
proof -
  have "\<exists>e. toDraw P (classify standardTags imps (Element ''script'' props cs)) = Inl e" for imps
    using assms(1) script_element_fails [of P props] by (simp del: toDraw.simps)
  from load_fail [OF assms(2) assms(3) assms(4) this]
  obtain e where e: "load P parse toLowerCase standardTags children = Inl e" by blast
  have n: "load P parse toLowerCase standardTags children = Inl NestedScript"
    if "extractScripts parse children [] = Inr (kept, parsed) \<and>
      (\<forall>k \<in> set kept. list_all (noSyntaxErrorAt P) (reached k))"
  proof -
    from that assms(1)
      load_no_syntax_error [where std = standardTags and Q = parse and children = children
        and kept = kept and parsed = parsed and P = P and lc = toLowerCase]
    have "load P parse toLowerCase standardTags children \<noteq> Inl SyntaxError" by blast
    with e show ?thesis by (cases e) simp_all
  qed
  have s: "load P parse toLowerCase standardTags children = Inl SyntaxError"
    if "extractScripts parse children [] = Inl err"
    using that extractScripts_error [OF that] by (simp add: load_def)
  from e n s extractScripts_kept [of parse children "[]" kept parsed] show ?thesis by blast
qed

theorem C5_witness:
  "someStandardTags ''script'' \<and>
   Element ''script'' [] [Text ''let a = 1'']
     \<in> set (reached (Element ''div'' [] [Element ''script'' [] [Text ''let a = 1'']])) \<and>
   extractScripts stmtsOfText [Element ''div'' [] [Element ''script'' [] [Text ''let a = 1'']]] [] =
     Inr ([Element ''div'' [] [Element ''script'' [] [Text ''let a = 1'']]], []) \<and>
   list_all (noSyntaxErrorAt exprOfText)
     (reached (Element ''div'' [] [Element ''script'' [] [Text ''let a = 1'']])) \<and>
   load exprOfText stmtsOfText lowerASCII someStandardTags
     [Element ''div'' [] [Element ''script'' [] [Text ''let a = 1'']]] = Inl NestedScript \<and>
   extractScripts stmtsUnlessParen
     [Element ''script'' [] [Text ''(''],
      Element ''div'' [] [Element ''script'' [] [Text ''let a = 1'']]] [] = Inl SyntaxError \<and>
   load exprOfText stmtsUnlessParen lowerASCII someStandardTags
     [Element ''script'' [] [Text ''(''],
      Element ''div'' [] [Element ''script'' [] [Text ''let a = 1'']]] = Inl SyntaxError"
proof -
  let ?d = "Element ''div'' [] [Element ''script'' [] [Text ''let a = 1'']]"
  have s: "someStandardTags ''script''" by (simp add: someStandardTags_def)
  have r: "Element ''script'' [] [Text ''let a = 1''] \<in> set (reached ?d)" by simp
  have c: "?d \<in> set [?d]" by simp
  have t: "tagNameOf ?d \<noteq> Some ''script''" by simp
  have x: "extractScripts stmtsOfText [?d] [] = Inr ([?d], [])" by simp
  have n: "list_all (noSyntaxErrorAt exprOfText) (reached ?d)" by code_simp
  then have a: "\<forall>k \<in> set [?d]. list_all (noSyntaxErrorAt exprOfText) (reached k)"
    by (simp del: reached.simps)
  have y: "extractScripts stmtsUnlessParen [Element ''script'' [] [Text ''(''], ?d] [] = Inl SyntaxError"
    by code_simp
  have c': "?d \<in> set [Element ''script'' [] [Text ''(''], ?d]" by simp
  from C5_reached_script_is_fatal [where standardTags = someStandardTags and c = ?d
      and children = "[Element ''script'' [] [Text ''(''], ?d]" and props = "[]"
      and cs = "[Text ''let a = 1'']" and P = exprOfText and parse = stmtsUnlessParen
      and toLowerCase = lowerASCII and err = SyntaxError, OF s c' t r] y
  have z: "load exprOfText stmtsUnlessParen lowerASCII someStandardTags
     [Element ''script'' [] [Text ''(''], ?d] = Inl SyntaxError"
    by blast
  from C5_reached_script_is_fatal [where standardTags = someStandardTags and c = ?d
      and children = "[?d]" and props = "[]" and cs = "[Text ''let a = 1'']"
      and P = exprOfText and parse = stmtsOfText and toLowerCase = lowerASCII
      and kept = "[?d]" and parsed = "[]", OF s c t r] x a
  have "load exprOfText stmtsOfText lowerASCII someStandardTags [?d] = Inl NestedScript"
    by blast
  with s r x n y z show ?thesis by blast
qed

text \<open>
  C5, as the claim states it, fails. In the document
  \<open><div><script>function f(){}</script></div>\<close> the script element is not removed by
  extraction and is reached by the synthesizer, but its text is lowered first: the
  splitter finds the span \<open>{}\<close> in it and the error raised is the syntax error of the
  parser, not the error for nested scripts.
\<close>

theorem C5_counterexample:
  "load exprOfText stmtsOfText lowerASCII someStandardTags
     [Element ''div'' [] [Element ''script'' [] [Text ''function f(){}'']]] = Inl SyntaxError"
  by code_simp

text \<open>
  C6, as the code has it. A node of a type without a handler (a comment, a doctype) that
  reaches \<open>toDraw\<close> raises nothing: \<open>toDraw\<close> returns \<open>null\<close> for it, the \<open>null\<close>
  takes the node's place in the parent's array of children, and the compilation goes on
  to its output. A document of such nodes only compiles to the import of \<open>el\<close> and a
  \<open>draw\<close> function that returns an array of \<open>null\<close>s.
\<close>

theorem C6_no_handler_gives_null:
  "toDraw P (Comment v) = Inr (One Null) \<and>
   toDraw P Doctype = Inr (One Null) \<and>
   (n = Comment v \<or> n = Doctype \<longrightarrow>
      flatMapE (toDraw P) (filter keepChild (before @ [n] @ after)) =
        (case flatMapE (toDraw P) (filter keepChild before) of
           Inl e \<Rightarrow> Inl e
         | Inr rb \<Rightarrow>
             (case flatMapE (toDraw P) (filter keepChild after) of
                Inl e \<Rightarrow> Inl e
              | Inr ra \<Rightarrow> Inr (rb @ [Null] @ ra)))) \<and>
   ((\<forall>c \<in> set children. c = Doctype \<or> (\<exists>w. c = Comment w)) \<longrightarrow>
      load P parse toLowerCase standardTags children =
        Inr [ImportDeclaration [elSpecifier] ''overture/dom'',
             handleRoot (map (\<lambda>c. Null) children)])"
proof (intro conjI impI)
  show "toDraw P (Comment v) = Inr (One Null)" by simp
  show "toDraw P Doctype = Inr (One Null)" by simp
  show "flatMapE (toDraw P) (filter keepChild (before @ [n] @ after)) =
        (case flatMapE (toDraw P) (filter keepChild before) of
           Inl e \<Rightarrow> Inl e
         | Inr rb \<Rightarrow>
             (case flatMapE (toDraw P) (filter keepChild after) of
                Inl e \<Rightarrow> Inl e
              | Inr ra \<Rightarrow> Inr (rb @ [Null] @ ra)))"
    if "n = Comment v \<or> n = Doctype"
  proof -
    from that have k: "keepChild n" and t: "toDraw P n = Inr (One Null)" by auto
    from flatMapE_middle [OF k t, of before after, unfolded spliced.simps] show ?thesis .
  qed
  show "load P parse toLowerCase standardTags children =
        Inr [ImportDeclaration [elSpecifier] ''overture/dom'',
             handleRoot (map (\<lambda>c. Null) children)]"
    if a: "\<forall>c \<in> set children. c = Doctype \<or> (\<exists>w. c = Comment w)"
  proof -
    from a have "\<forall>c \<in> set children. tagNameOf c \<noteq> Some ''script''" by auto
    then have ex: "extractScripts parse children [] = Inr (children, [])"
      by (rule extractScripts_no_script)
    have m: "map (classify standardTags imps) children = children" for imps
      using a by (induction children) auto
    have k: "filter keepChild children = children"
      using a by (induction children) auto
    have "\<forall>c \<in> set children. toDraw P c = Inr (One Null)" using a by auto
    then have f: "flatMapE (toDraw P) children = Inr (map (\<lambda>c. Null) children)"
      by (rule flatMapE_all_null)
    have e: "ensureElImport ([] :: 'a estree list) = [ImportDeclaration [elSpecifier] ''overture/dom'']"
      by (simp add: ensureElImport_def)
    show ?thesis
      unfolding load_def ex by (simp add: Let_def m k f e)
  qed
qed

theorem C6_witness:
  "load exprOfText stmtsOfText lowerASCII someStandardTags [Doctype, Comment ''note''] =
     Inr [ImportDeclaration [elSpecifier] ''overture/dom'', handleRoot [Null, Null]] \<and>
   flatMapE (toDraw exprOfText) (filter keepChild ([Text ''a''] @ [Comment ''note''] @ [])) =
     Inr [Literal (VStr ''a''), Null]"
proof -
  have a: "\<forall>c \<in> set [Doctype, Comment ''note'']. c = Doctype \<or> (\<exists>w. c = Comment w)" by simp
  have t: "flatMapE (toDraw exprOfText) (filter keepChild [Text ''a'']) = Inr [Literal (VStr ''a'')]"
    by code_simp
  from C6_no_handler_gives_null [where children = "[Doctype, Comment ''note'']" and P = exprOfText
      and parse = stmtsOfText and toLowerCase = lowerASCII and standardTags = someStandardTags and n = "Comment ''note''"
      and v = "''note''" and before = "[Text ''a'']" and after = "[]"] a t
  show ?thesis by (simp del: toDraw.simps)
qed

text \<open>
  C6, as the claim states it, fails: a comment that reaches the synthesizer raises no
  error, and the document compiles.
\<close>

theorem C6_counterexample:
  "toDraw exprOfText (Comment ''note'') = Inr (One Null) \<and>
   load exprOfText stmtsOfText lowerASCII someStandardTags [Element ''p'' [] [Comment ''note'']] =
     Inr [ImportDeclaration [elSpecifier] ''overture/dom'',
          ExportDefaultDeclaration
            (FunctionExpression [''ctx'']
               [ReturnStatement
                  (ArrayExpression
                     [CallExpression (Identifier ''el'')
                        [Literal (VStr ''p''), ObjectExpression [], ArrayExpression [Null]]])]
               ''draw'')]"
  by code_simp

text \<open>
  C7. A string whose brace depth never returns to 0 (no character brings the depth from
  another value to 0), such as \<open>a{b\<close>, has no span: \<open>findExpression\<close> returns \<open>null\<close>
  and the whole value is one literal, with no error.
\<close>

theorem C7_unbalanced_is_literal:
  "((\<forall>k \<in> {..<length s}. depthAfter s (Suc k) = 0 \<longrightarrow> depthAfter s k = 0) \<longrightarrow>
      findExpression (VStr s) = None \<and>
      handleExpressions P (VStr s) = Inr (One (Literal (VStr s)))) \<and>
   findExpression (VStr ''a{b'') = None \<and>
   handleExpressions P (VStr ''a{b'') = Inr (One (Literal (VStr ''a{b'')))"
proof (intro conjI impI)
  assume h: "\<forall>k \<in> {..<length s}. depthAfter s (Suc k) = 0 \<longrightarrow> depthAfter s k = 0"
  then show "findExpression (VStr s) = None" by (simp add: never_returns_no_span)
  from h show "handleExpressions P (VStr s) = Inr (One (Literal (VStr s)))"
    by (simp add: never_returns_no_span handleExpressions_no_span)
next
  have a: "findChars ''a{b'' = None" by code_simp
  then show "findExpression (VStr ''a{b'') = None" by simp
  from a show "handleExpressions P (VStr ''a{b'') = Inr (One (Literal (VStr ''a{b'')))"
    by (rule handleExpressions_no_span)
qed

theorem C7_witness:
  "depthAfter ''a{b'' 1 = 0 \<and> depthAfter ''a{b'' 2 = 1 \<and> depthAfter ''a{b'' 3 = 1 \<and>
   findExpression (VStr ''a{b'') = None \<and>
   handleExpressions exprOfText (VStr ''a{b'') = Inr (One (Literal (VStr ''a{b'')))"
proof -
  have h: "\<forall>k \<in> {..<length ''a{b''}. depthAfter ''a{b'' (Suc k) = 0 \<longrightarrow> depthAfter ''a{b'' k = 0"
    by (simp add: depthAfter_def braceDepth_def lessThan_Suc)
  have d: "depthAfter ''a{b'' 1 = 0 \<and> depthAfter ''a{b'' 2 = 1 \<and> depthAfter ''a{b'' 3 = 1"
    by (simp add: depthAfter_def braceDepth_def)
  from C7_unbalanced_is_literal [of "''a{b''" exprOfText] h d show ?thesis by blast
qed

text \<open>
  C8. Classification is idempotent: classifying a classified tree again gives the same
  tree. A pass keeps the type of every node, except that it turns an element into a view;
  it never turns a view into an element.
\<close>

theorem C8_classify_idempotent:
  "classify standardTags imports (classify standardTags imports t) = classify standardTags imports t \<and>
   (nodeType (classify standardTags imports t) = nodeType t \<or>
    nodeType t = ''element'' \<and> nodeType (classify standardTags imports t) = ''view'') \<and>
   classify standardTags imports (View tagName props cs) =
     View tagName props (map (classify standardTags imports) cs)"
  using classify_idem [of standardTags "imports" t] classify_type [of standardTags "imports" t]
  by simp

theorem C8_witness:
  "classify someStandardTags [''foo'' \<mapsto> ''Foo'']
     (Root [Element ''div'' [] [Element ''foo'' [] [Text ''x'']]]) =
     Root [Element ''div'' [] [View ''Foo'' [] [Text ''x'']]] \<and>
   classify someStandardTags [''foo'' \<mapsto> ''Foo'']
     (classify someStandardTags [''foo'' \<mapsto> ''Foo'']
        (Root [Element ''div'' [] [Element ''foo'' [] [Text ''x'']]])) =
     Root [Element ''div'' [] [View ''Foo'' [] [Text ''x'']]]"
proof -
  have a: "classify someStandardTags [''foo'' \<mapsto> ''Foo'']
     (Root [Element ''div'' [] [Element ''foo'' [] [Text ''x'']]]) =
     Root [Element ''div'' [] [View ''Foo'' [] [Text ''x'']]]"
    by (simp add: someStandardTags_def)
  from C8_classify_idempotent [of someStandardTags "[''foo'' \<mapsto> ''Foo'']"
      "Root [Element ''div'' [] [Element ''foo'' [] [Text ''x'']]]"] a
  show ?thesis by (simp del: classify.simps)
qed



text \<open>
  C10, as the code has it. When the first span of a text value, of a string-valued
  attribute or of the class list joined into its string is the empty pair \<open>{}\<close>, the
  splitter matches it and hands the empty text inside to the parser; acorn throws on the
  empty text, and so does \<open>handleExpressions\<close>, instead of giving a literal. The same
  error leaves the text handler and the lowering of the attribute. An attribute whose
  lowering fails makes \<open>parseProperties\<close> and the handlers of its element or view
  fail, and \<open>load\<close> gives no module when such a text or attribute is reached below a
  top-level node that is not a script. The array of a list-valued attribute other than
  the class list is not joined and the splitter does not look inside its tokens: unless
  one of the tokens is itself \<open>}\<close>, the attribute is lowered to the literal of its array,
  whatever braces are inside its tokens. (Over the tokens the splitter takes a token
  \<open>{\<close> and a token \<open>}\<close> for braces: when such a pair of neighbours is the first span,
  the parser is handed the empty array, throws on its empty text, and the lowering fails
  the same way.)
\<close>

theorem C10_empty_braces_abort:
  assumes "firstSpan s st (Suc st)" and "P (VStr '''') = None"
  shows "handleExpressions P (VStr s) = Inl SyntaxError \<and>
     toDraw P (Text s) = Inl SyntaxError \<and>
     lowerProperty P key (VStr s) = Inl SyntaxError \<and>
     (joinWith '' '' (map itemText tokens) = s \<longrightarrow>
        lowerProperty P ''className'' (VArr tokens) = Inl SyntaxError) \<and>
     (joinClassName key v = VStr s \<longrightarrow> lowerProperty P key v = Inl SyntaxError) \<and>
     ((key, v) \<in> set props \<and> lowerProperty P key v = Inl SyntaxError \<longrightarrow>
        parseProperties P props = Inl SyntaxError \<and>
        (\<exists>e. toDraw P (Element tagName props cs) = Inl e) \<and>
        (\<exists>e. toDraw P (View tagName props cs) = Inl e)) \<and>
     (c \<in> set children \<and> tagNameOf c \<noteq> Some ''script'' \<and>
      (Text s \<in> set (reached c) \<or>
       (key, v) \<in> set props \<and> lowerProperty P key v = Inl SyntaxError \<and>
       (Element tagName props cs \<in> set (reached c) \<or> View tagName props cs \<in> set (reached c))) \<longrightarrow>
        (\<exists>e. load P parse toLowerCase standardTags children = Inl e)) \<and>
     (key \<noteq> ''className'' \<and> IStr ''}'' \<notin> set items \<longrightarrow>
        lowerProperty P key (VArr items) = Inr (Literal (VArr items))) \<and>
     (key \<noteq> ''className'' \<and> findExpression (VArr items) = Some (i, Suc i) \<and> P (VArr []) = None \<longrightarrow>
        lowerProperty P key (VArr items) = Inl SyntaxError)"
proof -
  have h: "handleExpressions P (VStr s) = Inl SyntaxError"
    using assms by (rule handleExpressions_empty_span)
  then have t: "toDraw P (Text s) = Inl SyntaxError" by simp
  have j: "lowerProperty P k w = Inl SyntaxError" if "joinClassName k w = VStr s" for k w
    using h that by (simp add: lowerProperty_def)
  have l: "lowerProperty P key (VStr s) = Inl SyntaxError"
    by (rule j) (simp add: joinClassName_def)
  have cn: "lowerProperty P ''className'' (VArr tokens) = Inl SyntaxError"
    if "joinWith '' '' (map itemText tokens) = s"
    by (rule j) (simp add: joinClassName_def that)
  have pp: "parseProperties P props = Inl SyntaxError"
    if "(key, v) \<in> set props \<and> lowerProperty P key v = Inl SyntaxError"
    using that parseProperties_fail [of key v props P SyntaxError] by blast
  have el: "\<exists>e. toDraw P (Element tg props ks) = Inl e"
    and vw: "\<exists>e. toDraw P (View tg props ks) = Inl e"
    if "(key, v) \<in> set props \<and> lowerProperty P key v = Inl SyntaxError" for tg ks
    using toDraw_properties_fail [OF pp [OF that]] by blast+
  have ld: "\<exists>e. load P parse toLowerCase standardTags children = Inl e"
    if c: "c \<in> set children" "tagNameOf c \<noteq> Some ''script''"
      and r: "Text s \<in> set (reached c) \<or>
       (key, v) \<in> set props \<and> lowerProperty P key v = Inl SyntaxError \<and>
       (Element tagName props cs \<in> set (reached c) \<or> View tagName props cs \<in> set (reached c))"
  proof -
    from r consider "Text s \<in> set (reached c)"
      | "(key, v) \<in> set props \<and> lowerProperty P key v = Inl SyntaxError"
        "Element tagName props cs \<in> set (reached c)"
      | "(key, v) \<in> set props \<and> lowerProperty P key v = Inl SyntaxError"
        "View tagName props cs \<in> set (reached c)" by blast
    then show ?thesis
    proof cases
      case 1
      have "\<exists>e. toDraw P (classify standardTags imps (Text s)) = Inl e" for imps
        using t by simp
      from load_fail [OF c 1 this] show ?thesis .
    next
      case 2
      have "\<exists>e. toDraw P (classify standardTags imps (Element tagName props cs)) = Inl e" for imps
        using el [OF 2(1)] vw [OF 2(1)] by (simp split: option.splits del: toDraw.simps)
      from load_fail [OF c 2(2) this] show ?thesis .
    next
      case 3
      have "\<exists>e. toDraw P (classify standardTags imps (View tagName props cs)) = Inl e" for imps
        using vw [OF 3(1)] by (simp del: toDraw.simps)
      from load_fail [OF c 3(2) this] show ?thesis .
    qed
  qed
  have lit: "lowerProperty P key (VArr items) = Inr (Literal (VArr items))"
    if "key \<noteq> ''className'' \<and> IStr ''}'' \<notin> set items"
    using that by (simp add: lowerProperty_array_literal)
  have ab: "lowerProperty P key (VArr items) = Inl SyntaxError"
    if "key \<noteq> ''className'' \<and> findExpression (VArr items) = Some (i, Suc i) \<and> P (VArr []) = None"
    using that by (simp add: lowerProperty_def joinClassName_def handleExpressions_def)
  show ?thesis using h t l cn j pp el vw ld lit ab by blast
qed

theorem C10_witness:
  "firstSpan ''a{}'' 1 (Suc 1) \<and> exprOfText (VStr '''') = None \<and>
   handleExpressions exprOfText (VStr ''a{}'') = Inl SyntaxError \<and>
   toDraw exprOfText (Text ''a{}'') = Inl SyntaxError \<and>
   load exprOfText stmtsOfText lowerASCII someStandardTags [Element ''p'' [] [Text ''a{}'']] =
     Inl SyntaxError \<and>
   lowerProperty exprOfText ''title'' (VStr ''a{}'') = Inl SyntaxError \<and>
   parseProperties exprOfText [(''title'', VStr ''a{}'')] = Inl SyntaxError \<and>
   load exprOfText stmtsOfText lowerASCII someStandardTags
     [Element ''p'' [(''title'', VStr ''a{}'')] []] = Inl SyntaxError \<and>
   lowerProperty exprOfText ''className'' (VArr [IStr ''a{}'']) = Inl SyntaxError \<and>
   firstSpan ''b {}'' 2 (Suc 2) \<and>
   joinClassName ''className'' (VArr [IStr ''b'', IStr ''{}'']) = VStr ''b {}'' \<and>
   parseProperties exprOfText [(''className'', VArr [IStr ''b'', IStr ''{}''])] = Inl SyntaxError \<and>
   lowerProperty exprOfText ''rel'' (VArr [IStr ''a{}'']) = Inr (Literal (VArr [IStr ''a{}''])) \<and>
   findExpression (VArr [IStr ''{'', IStr ''}'']) = Some (0, Suc 0) \<and>
   exprOfText (VArr []) = None \<and>
   lowerProperty exprOfText ''rel'' (VArr [IStr ''{'', IStr ''}'']) = Inl SyntaxError"
proof -
  let ?p = "Element ''p'' [] [Text ''a{}'']"
  let ?q = "Element ''p'' [(''title'', VStr ''a{}'')] []"
  have a: "firstSpan ''a{}'' 1 (Suc 1)" by code_simp
  have a': "firstSpan ''b {}'' 2 (Suc 2)" by code_simp
  have b: "exprOfText (VStr '''') = None" by (simp add: exprOfText_def)
  have b': "exprOfText (VArr []) = None" by (simp add: exprOfText_def)
  have j: "joinWith '' '' (map itemText [IStr ''a{}'']) = ''a{}''" by simp
  have j': "joinClassName ''className'' (VArr [IStr ''b'', IStr ''{}'']) = VStr ''b {}''"
    by (simp add: joinClassName_def)
  have r: "?p \<in> set [?p] \<and> tagNameOf ?p \<noteq> Some ''script'' \<and> Text ''a{}'' \<in> set (reached ?p)"
    by simp
  have r': "?q \<in> set [?q] \<and> tagNameOf ?q \<noteq> Some ''script'' \<and>
     (''title'', VStr ''a{}'') \<in> set [(''title'', VStr ''a{}'')] \<and> ?q \<in> set (reached ?q)"
    by simp
  have k: "''rel'' \<noteq> ''className'' \<and> IStr ''}'' \<notin> set [IStr ''a{}'']" by simp
  have f: "findExpression (VArr [IStr ''{'', IStr ''}'']) = Some (0, Suc 0)" by code_simp
  have np: "load exprOfText stmtsOfText lowerASCII someStandardTags [?p] \<noteq> Inl NestedScript"
    by code_simp
  have nq: "load exprOfText stmtsOfText lowerASCII someStandardTags [?q] \<noteq> Inl NestedScript"
    by code_simp
  note t = C10_empty_braces_abort [where s = "''a{}''" and st = 1 and P = exprOfText
      and key = "''title''" and v = "VStr ''a{}''" and props = "[(''title'', VStr ''a{}'')]"
      and tokens = "[IStr ''a{}'']" and tagName = "''p''" and cs = "[]"
      and c = ?p and children = "[?p]"
      and parse = stmtsOfText and toLowerCase = lowerASCII and standardTags = someStandardTags
      and items = "[]" and i = 0, OF a b]
  note t' = C10_empty_braces_abort [where s = "''a{}''" and st = 1 and P = exprOfText
      and key = "''title''" and v = "VStr ''a{}''" and props = "[(''title'', VStr ''a{}'')]"
      and tokens = "[]" and tagName = "''p''" and cs = "[]" and c = ?q and children = "[?q]"
      and parse = stmtsOfText and toLowerCase = lowerASCII and standardTags = someStandardTags
      and items = "[]" and i = 0, OF a b]
  note u = C10_empty_braces_abort [where s = "''a{}''" and st = 1 and P = exprOfText
      and key = "''rel''" and v = "VStr []" and props = "[]" and tokens = "[]"
      and tagName = "''p''" and cs = "[]" and c = ?p and children = "[]"
      and parse = stmtsOfText and toLowerCase = lowerASCII and standardTags = someStandardTags
      and items = "[IStr ''a{}'']" and i = 0, OF a b]
  note u' = C10_empty_braces_abort [where s = "''a{}''" and st = 1 and P = exprOfText
      and key = "''rel''" and v = "VStr []" and props = "[]" and tokens = "[]"
      and tagName = "''p''" and cs = "[]" and c = ?p and children = "[]"
      and parse = stmtsOfText and toLowerCase = lowerASCII and standardTags = someStandardTags
      and items = "[IStr ''{'', IStr ''}'']" and i = 0, OF a b]
  note w = C10_empty_braces_abort [where s = "''b {}''" and st = 2 and P = exprOfText
      and key = "''className''" and v = "VArr [IStr ''b'', IStr ''{}'']"
      and props = "[(''className'', VArr [IStr ''b'', IStr ''{}''])]" and tokens = "[]"
      and tagName = "''p''" and cs = "[]" and c = ?p and children = "[]"
      and parse = stmtsOfText and toLowerCase = lowerASCII and standardTags = someStandardTags
      and items = "[]" and i = 0, OF a' b]
  from t have t1: "handleExpressions exprOfText (VStr ''a{}'') = Inl SyntaxError"
    and t2: "toDraw exprOfText (Text ''a{}'') = Inl SyntaxError"
    and t3: "lowerProperty exprOfText ''title'' (VStr ''a{}'') = Inl SyntaxError"
    by blast+
  from t r have "\<exists>e. load exprOfText stmtsOfText lowerASCII someStandardTags [?p] = Inl e"
    by blast
  with np have l: "load exprOfText stmtsOfText lowerASCII someStandardTags [?p] = Inl SyntaxError"
    by (metis error.exhaust)
  from t j have t4: "lowerProperty exprOfText ''className'' (VArr [IStr ''a{}'']) = Inl SyntaxError"
    by blast
  from t t3 r' have t5: "parseProperties exprOfText [(''title'', VStr ''a{}'')] = Inl SyntaxError"
    by blast
  from t' t3 r' have "\<exists>e. load exprOfText stmtsOfText lowerASCII someStandardTags [?q] = Inl e"
    by blast
  with nq have l': "load exprOfText stmtsOfText lowerASCII someStandardTags [?q] = Inl SyntaxError"
    by (metis error.exhaust)
  from w j' have w0: "lowerProperty exprOfText ''className'' (VArr [IStr ''b'', IStr ''{}'']) =
      Inl SyntaxError"
    by blast
  have m: "(''className'', VArr [IStr ''b'', IStr ''{}'']) \<in>
      set [(''className'', VArr [IStr ''b'', IStr ''{}''])]"
    by simp
  from w w0 m have w1: "parseProperties exprOfText [(''className'', VArr [IStr ''b'', IStr ''{}''])] =
      Inl SyntaxError"
    by blast
  from u k have u1: "lowerProperty exprOfText ''rel'' (VArr [IStr ''a{}'']) =
      Inr (Literal (VArr [IStr ''a{}'']))"
    by blast
  from u' k f b' have u2: "lowerProperty exprOfText ''rel'' (VArr [IStr ''{'', IStr ''}'']) = Inl SyntaxError"
    by blast
  from a b t1 t2 l t3 t5 l' t4 a' j' w1 u1 f b' u2 show ?thesis by blast
qed

text \<open>
  C10, as the claim states it, fails. The value \<open>{}\<close> of the attribute \<open>rel\<close> of
  \<open><a rel="{}">\<close> has the empty pair as its first span, but \<open>rel\<close> is list-valued
  and reaches the splitter as the array of its one token \<open>{}\<close>, which is neither brace:
  no span is matched, the attribute is lowered to a literal and the document compiles.
\<close>

theorem C10_counterexample:
  "firstSpan ''{}'' 0 1 \<and>
   findExpression (VArr [IStr ''{}'']) = None \<and>
   lowerProperty exprOfText ''rel'' (VArr [IStr ''{}'']) = Inr (Literal (VArr [IStr ''{}''])) \<and>
   load exprOfText stmtsOfText lowerASCII someStandardTags
     [Element ''a'' [(''rel'', VArr [IStr ''{}''])] []] =
     Inr [ImportDeclaration [elSpecifier] ''overture/dom'',
          ExportDefaultDeclaration
            (FunctionExpression [''ctx'']
               [ReturnStatement
                  (ArrayExpression
                     [CallExpression (Identifier ''el'')
                        [Literal (VStr ''a''),
                         ObjectExpression [(''rel'', Literal (VArr [IStr ''{}'']))],
                         ArrayExpression []]])]
               ''draw'')]"
  by code_simp

end
